theory Spec2Isabelle
  imports Main "HOL-Library.Word"
begin

unbundle bit_operations_syntax

section \<open>Values carried by requests and tokens\<close>

text \<open>
  A decoded JSON value, as Go's \<^verbatim>\<open>encoding/json\<close> stores it in an
  \<^verbatim>\<open>interface{}\<close>: nil, bool, number, string, slice or
  \<^verbatim>\<open>map[string]interface{}\<close>. Numbers are kept as integers (the numeric
  dates of a token are whole seconds since the Unix epoch). A Go map is a partial function:
  it has no insertion order.
\<close>

datatype json_value =
    JNull
  | JBool bool
  | JNumber int
  | JString string
  | JArray "json_value list"
  | JObject "string \<Rightarrow> json_value option"

text \<open>\<^verbatim>\<open>Config\<close> (config.go).\<close>

record Config =
  IssuerURL :: string
  Audience :: string
  SkipPaths :: "string list"

text \<open>
  \<^verbatim>\<open>Claims\<close> (claims.go). \<^verbatim>\<open>Roles\<close> is a Go map and may be nil:
  \<open>None\<close> is the nil map. The fields \<^verbatim>\<open>OrgID\<close> and \<^verbatim>\<open>OrgDomain\<close> carry a
  suffix here, since the accessor functions of claims.go have those names.
\<close>

record Claims =
  Sub :: string
  Email :: string
  OrgID_field :: string
  OrgDomain_field :: string
  Roles :: "(string \<Rightarrow> json_value option) option"

text \<open>
  What a handler sees of \<^verbatim>\<open>*gin.Context\<close>: the matched route pattern, the request's
  headers and query parameters (a missing one reads as the empty string), and the
  per-request key/value store. A stored value is a \<^verbatim>\<open>*Claims\<close> (possibly nil) or
  something of another type.
\<close>

datatype ctx_value = PtrClaims "Claims option" | OtherValue string

record Context =
  FullPath :: string
  RequestHeader :: "string \<Rightarrow> string option"
  RequestQuery :: "string \<Rightarrow> string option"
  Keys :: "string \<Rightarrow> ctx_value option"

text \<open>
  A middleware either calls \<^verbatim>\<open>c.Next()\<close> on the context it has (perhaps after
  storing something in it) or aborts with a status and a JSON object
  (\<^verbatim>\<open>gin.H\<close>, here the list of its entries).
\<close>

datatype HandlerResult =
    Next Context
  | AbortWithStatusJSON int "(string \<times> string) list"

definition StatusOK :: int where "StatusOK = 200"
definition StatusUnauthorized :: int where "StatusUnauthorized = 401"
definition StatusForbidden :: int where "StatusForbidden = 403"

definition GetHeader :: "Context \<Rightarrow> string \<Rightarrow> string" where
  "GetHeader c k = (case RequestHeader c k of None \<Rightarrow> [] | Some v \<Rightarrow> v)"

definition Query :: "Context \<Rightarrow> string \<Rightarrow> string" where
  "Query c k = (case RequestQuery c k of None \<Rightarrow> [] | Some v \<Rightarrow> v)"

definition HasPrefix :: "string \<Rightarrow> string \<Rightarrow> bool" where
  "HasPrefix s p = (take (length p) s = p)"

definition TrimPrefix :: "string \<Rightarrow> string \<Rightarrow> string" where
  "TrimPrefix s p = (if HasPrefix s p then drop (length p) s else s)"

fun Join :: "string list \<Rightarrow> string \<Rightarrow> string" where
  "Join [] sep = []"
| "Join [x] sep = x"
| "Join (x # y # xs) sep = x @ sep @ Join (y # xs) sep"

text \<open>The em dash of the 403 messages, as its three UTF-8 bytes.\<close>

definition emdash :: string where
  "emdash = [CHR 0xE2, CHR 0x80, CHR 0x94]"

section \<open>claims.go\<close>

definition claimsKey :: string where
  "claimsKey = ''dromos_auth_claims''"

definition SetClaims :: "Context \<Rightarrow> Claims option \<Rightarrow> Context" where
  "SetClaims c claims = c\<lparr>Keys := (Keys c)(claimsKey \<mapsto> PtrClaims claims)\<rparr>"

definition GetClaims :: "Context \<Rightarrow> Claims option" where
  "GetClaims c =
     (case Keys c claimsKey of
        None \<Rightarrow> None
      | Some (PtrClaims claims) \<Rightarrow> claims
      | Some (OtherValue _) \<Rightarrow> None)"

definition UserID :: "Context \<Rightarrow> string" where
  "UserID c = (case GetClaims c of Some cl \<Rightarrow> Sub cl | None \<Rightarrow> [])"

definition OrgID :: "Context \<Rightarrow> string" where
  "OrgID c = (case GetClaims c of Some cl \<Rightarrow> OrgID_field cl | None \<Rightarrow> [])"

definition OrgDomain :: "Context \<Rightarrow> string" where
  "OrgDomain c = (case GetClaims c of Some cl \<Rightarrow> OrgDomain_field cl | None \<Rightarrow> [])"

definition HasRole :: "Context \<Rightarrow> string \<Rightarrow> bool" where
  "HasRole c role =
     (case GetClaims c of
        None \<Rightarrow> False
      | Some cl \<Rightarrow>
          (case Roles cl of
             None \<Rightarrow> False
           | Some m \<Rightarrow> (case m role of Some _ \<Rightarrow> True | None \<Rightarrow> False)))"

fun HasAnyRole :: "Context \<Rightarrow> string list \<Rightarrow> bool" where
  "HasAnyRole c [] = False"
| "HasAnyRole c (role # roles) = (if HasRole c role then True else HasAnyRole c roles)"

section \<open>The role and tenant middlewares\<close>

definition RequireRole :: "string list \<Rightarrow> Context \<Rightarrow> HandlerResult" where
  "RequireRole roles c =
     (if HasAnyRole c roles then Next c
      else AbortWithStatusJSON StatusForbidden
             [(''error'', ''insufficient permissions '' @ emdash @ '' requires one of: ''
                          @ Join roles '', '')])"

definition RequireTenant :: "Context \<Rightarrow> HandlerResult" where
  "RequireTenant c =
     (let orgID = OrgID c in
      if orgID = [] then
        AbortWithStatusJSON StatusForbidden
          [(''error'', ''no organization context '' @ emdash
                       @ '' user must belong to an organization'')]
      else Next c)"

section \<open>Token transport (auth.go, extractToken)\<close>

definition extractToken :: "Context \<Rightarrow> string" where
  "extractToken c =
     (let authHeader = GetHeader c ''Authorization'' in
      if authHeader \<noteq> [] \<and> HasPrefix authHeader ''Bearer '' then
        TrimPrefix authHeader ''Bearer ''
      else
        (let token = Query c ''token'' in
         if token \<noteq> [] then token else []))"

section \<open>Time\<close>

text \<open>
  A \<^verbatim>\<open>time.Time\<close> is an instant in nanoseconds relative to the Unix epoch, a
  \<^verbatim>\<open>time.Duration\<close> a signed 64-bit count of nanoseconds.
  \<^verbatim>\<open>Time.Sub\<close> saturates at the largest and smallest duration. The zero
  \<^verbatim>\<open>Time\<close> is January 1 of year 1.
\<close>

definition Second :: int where "Second = 1000000000"
definition Hour :: int where "Hour = 3600 * Second"
definition maxDuration :: int where "maxDuration = 2 ^ 63 - 1"
definition minDuration :: int where "minDuration = - (2 ^ 63)"
definition zeroTime :: int where "zeroTime = - 62135596800 * Second"

definition Sub_time :: "int \<Rightarrow> int \<Rightarrow> int" where
  "Sub_time t u =
     (let d = t - u in
      if d > maxDuration then maxDuration
      else if d < minDuration then minDuration
      else d)"

section \<open>The world outside the process\<close>

text \<open>
  The key-discovery endpoint answers an HTTP GET with a transport error, or with a status
  and a body; the body either decodes into a \<^verbatim>\<open>jwksResponse\<close> or does not.
  The world holds the clock, what each URL would answer, and the number of GETs issued so
  far.
\<close>

record jwksKey =
  Kty :: string
  Kid :: string
  Use :: string
  Alg :: string
  N :: string
  E :: string

record jwksResponse =
  RespKeys :: "jwksKey list"

datatype GetResult = GetError | Response int "jwksResponse option"

record World =
  now :: int
  endpoint :: "string \<Rightarrow> GetResult"
  http_calls :: nat

definition Since :: "World \<Rightarrow> int \<Rightarrow> int" where
  "Since w t = Sub_time (now w) t"

definition httpClient_Get :: "World \<Rightarrow> string \<Rightarrow> GetResult \<times> World" where
  "httpClient_Get w url = (endpoint w url, w\<lparr>http_calls := http_calls w + 1\<rparr>)"

section \<open>The key cache (JWKSCache)\<close>

text \<open>
  \<^verbatim>\<open>rsa.PublicKey\<close>: the modulus is a non-negative big integer, the exponent a Go
  \<^verbatim>\<open>int\<close> (64 bits, wrapping).
\<close>

record PublicKey =
  rsa_N :: nat
  rsa_E :: "64 word"

text \<open>
  The cache, without its lock and its HTTP client: the lock admits one writer at a time,
  so one call of \<^verbatim>\<open>refresh\<close> runs from start to end on the state it finds.
\<close>

record JWKSCache =
  jwksURL :: string
  keys :: "string \<Rightarrow> PublicKey option"
  lastFetch :: int
  cacheTTL :: int

datatype refresh_error =
    JWKSFetchFailed
  | JWKSEndpointStatus int
  | JWKSDecodeFailed

datatype parse_key_error = InvalidModulus | InvalidExponent

datatype GetKey_error =
    FailedToRefresh refresh_error
  | KeyNotFound string

definition NewJWKSCache :: "string \<Rightarrow> JWKSCache" where
  "NewJWKSCache url =
     \<lparr>jwksURL = url, keys = Map.empty, lastFetch = zeroTime, cacheTTL = 1 * Hour\<rparr>"

text \<open>\<^verbatim>\<open>new(big.Int).SetBytes\<close>: the bytes as a big-endian natural number.\<close>

definition SetBytes :: "8 word list \<Rightarrow> nat" where
  "SetBytes bs = foldl (\<lambda>n b. n * 256 + unat b) 0 bs"

text \<open>
  \<^verbatim>\<open>parseRSAPublicKey\<close>. The base64url decoder
  (\<^verbatim>\<open>base64.RawURLEncoding.DecodeString\<close>) is the standard library's and is taken as
  the parameter \<open>dec\<close>; \<open>None\<close> is its error.
\<close>

definition parseRSAPublicKey ::
  "(string \<Rightarrow> 8 word list option) \<Rightarrow> string \<Rightarrow> string \<Rightarrow> parse_key_error + PublicKey" where
  "parseRSAPublicKey dec nStr eStr =
     (case dec nStr of
        None \<Rightarrow> Inl InvalidModulus
      | Some nBytes \<Rightarrow>
          (case dec eStr of
             None \<Rightarrow> Inl InvalidExponent
           | Some eBytes \<Rightarrow>
               Inr \<lparr>rsa_N = SetBytes nBytes,
                    rsa_E = foldl (\<lambda>e b. push_bit 8 e + ucast b) 0 eBytes\<rparr>))"

text \<open>The loop of \<^verbatim>\<open>refresh\<close> over the keys of the response.\<close>

fun collectKeys ::
  "(string \<Rightarrow> 8 word list option) \<Rightarrow> (string \<Rightarrow> PublicKey option) \<Rightarrow> jwksKey list
     \<Rightarrow> (string \<Rightarrow> PublicKey option)" where
  "collectKeys dec newKeys [] = newKeys"
| "collectKeys dec newKeys (k # ks) =
     (if Kty k \<noteq> ''RSA'' \<or> Use k \<noteq> ''sig'' then collectKeys dec newKeys ks
      else
        (case parseRSAPublicKey dec (N k) (E k) of
           Inl err \<Rightarrow> collectKeys dec newKeys ks
         | Inr pubKey \<Rightarrow> collectKeys dec (newKeys(Kid k \<mapsto> pubKey)) ks))"

definition refresh ::
  "(string \<Rightarrow> 8 word list option) \<Rightarrow> JWKSCache \<times> World
     \<Rightarrow> refresh_error option \<times> JWKSCache \<times> World" where
  "refresh dec jw =
     (case jw of (j, w) \<Rightarrow>
        if Since w (lastFetch j) < 30 * Second then (None, j, w)
        else
          (case httpClient_Get w (jwksURL j) of
             (GetError, w') \<Rightarrow> (Some JWKSFetchFailed, j, w')
           | (Response status body, w') \<Rightarrow>
               if status \<noteq> StatusOK then (Some (JWKSEndpointStatus status), j, w')
               else
                 (case body of
                    None \<Rightarrow> (Some JWKSDecodeFailed, j, w')
                  | Some jwks \<Rightarrow>
                      (let newKeys = collectKeys dec Map.empty (RespKeys jwks) in
                       (None, j\<lparr>keys := newKeys, lastFetch := now w'\<rparr>, w')))))"

definition GetKey ::
  "(string \<Rightarrow> 8 word list option) \<Rightarrow> string \<Rightarrow> JWKSCache \<times> World
     \<Rightarrow> (GetKey_error + PublicKey) \<times> JWKSCache \<times> World" where
  "GetKey dec kid jw =
     (case jw of (j, w) \<Rightarrow>
        (case (case keys j kid of
                 Some key \<Rightarrow> if Since w (lastFetch j) < cacheTTL j then Some key else None
               | None \<Rightarrow> None) of
           Some key \<Rightarrow> (Inr key, j, w)
         | None \<Rightarrow>
             (case refresh dec (j, w) of
                (Some err, j', w') \<Rightarrow> (Inl (FailedToRefresh err), j', w')
              | (None, j', w') \<Rightarrow>
                  (case keys j' kid of
                     None \<Rightarrow> (Inl (KeyNotFound kid), j', w')
                   | Some key \<Rightarrow> (Inr key, j', w')))))"

section \<open>The token library (golang-jwt/jwt v5), as far as auth.go calls it\<close>

text \<open>
  \<^verbatim>\<open>jwt.Parse\<close> is the imported library's. What follows is its control flow with the
  options auth.go passes (\<^verbatim>\<open>WithIssuer\<close>, \<^verbatim>\<open>WithValidMethods\<close>): decode
  header and payload, look up the signing method the header names, check it against the
  valid methods, decode the signature, ask the key function for the key, verify the
  signature, validate the registered claims. Splitting and decoding the three segments
  and the RSA verification itself are taken as the parameter \<open>segs\<close>: for a token
  string it yields the decoded header and payload, whether the signature segment decodes,
  and the keys under which the signature verifies.
\<close>

datatype SigningMethod =
    SigningMethodRSA string
  | SigningMethodRSAPSS string
  | SigningMethodHMAC string
  | SigningMethodECDSA string
  | SigningMethodEd25519
  | signingMethodNone

fun Alg_of :: "SigningMethod \<Rightarrow> string" where
  "Alg_of (SigningMethodRSA a) = a"
| "Alg_of (SigningMethodRSAPSS a) = a"
| "Alg_of (SigningMethodHMAC a) = a"
| "Alg_of (SigningMethodECDSA a) = a"
| "Alg_of SigningMethodEd25519 = ''EdDSA''"
| "Alg_of signingMethodNone = ''none''"

text \<open>The methods the library registers.\<close>

definition GetSigningMethod :: "string \<Rightarrow> SigningMethod option" where
  "GetSigningMethod alg =
     (if alg = ''RS256'' \<or> alg = ''RS384'' \<or> alg = ''RS512'' then Some (SigningMethodRSA alg)
      else if alg = ''PS256'' \<or> alg = ''PS384'' \<or> alg = ''PS512''
        then Some (SigningMethodRSAPSS alg)
      else if alg = ''HS256'' \<or> alg = ''HS384'' \<or> alg = ''HS512''
        then Some (SigningMethodHMAC alg)
      else if alg = ''ES256'' \<or> alg = ''ES384'' \<or> alg = ''ES512''
        then Some (SigningMethodECDSA alg)
      else if alg = ''EdDSA'' then Some SigningMethodEd25519
      else if alg = ''none'' then Some signingMethodNone
      else None)"

record Segments =
  seg_header :: "string \<Rightarrow> json_value option"
  seg_claims :: "string \<Rightarrow> json_value option"
  seg_signature_decodes :: bool
  seg_verifies :: "PublicKey \<Rightarrow> bool"

text \<open>
  \<^verbatim>\<open>jwt.Claims\<close> is an interface; \<^verbatim>\<open>jwt.Parse\<close> always fills it with a
  \<^verbatim>\<open>MapClaims\<close>.
\<close>

datatype jwt_Claims = MapClaims "string \<Rightarrow> json_value option" | OtherClaims

record Token =
  Raw :: string
  Method :: "SigningMethod option"
  Header :: "string \<Rightarrow> json_value option"
  TokenClaims :: jwt_Claims
  Valid :: bool

datatype claims_error =
    ErrTokenExpired
  | ErrTokenNotValidYet
  | ErrTokenInvalidIssuer
  | ErrTokenRequiredClaimMissing string
  | ErrInvalidType string

text \<open>
  The errors of \<^verbatim>\<open>Parse\<close>, one constructor for each place it returns from. The library
  reports an \<open>alg\<close> header that is missing or not a string, and one that names no
  registered method, as \<^verbatim>\<open>ErrTokenUnverifiable\<close> (``signing method (alg) is
  unspecified'', ``unavailable''); a registered method outside the valid methods as
  \<^verbatim>\<open>ErrTokenSignatureInvalid\<close> (``signing method ... is invalid''); an error of the
  key function as \<^verbatim>\<open>ErrTokenUnverifiable\<close> wrapping it.
\<close>

datatype 'e jwt_error =
    ErrTokenMalformed
  | ErrSigningMethodUnspecified
  | ErrSigningMethodUnavailable
  | ErrSigningMethodInvalid string
  | ErrKeyfunc 'e
  | ErrTokenSignatureInvalid
  | ErrTokenInvalidClaims "claims_error list"

definition ParseUnverified ::
  "(string \<Rightarrow> Segments option) \<Rightarrow> string \<Rightarrow> 'e jwt_error + Token \<times> Segments" where
  "ParseUnverified segs tokenString =
     (case segs tokenString of
        None \<Rightarrow> Inl ErrTokenMalformed
      | Some parts \<Rightarrow>
          (case seg_header parts ''alg'' of
             Some (JString method) \<Rightarrow>
               (case GetSigningMethod method of
                  None \<Rightarrow> Inl ErrSigningMethodUnavailable
                | Some m \<Rightarrow>
                    Inr (\<lparr>Raw = tokenString, Method = Some m, Header = seg_header parts,
                          TokenClaims = MapClaims (seg_claims parts), Valid = False\<rparr>, parts))
           | _ \<Rightarrow> Inl ErrSigningMethodUnspecified))"

definition parseNumericDate ::
  "(string \<Rightarrow> json_value option) \<Rightarrow> string \<Rightarrow> claims_error + int option" where
  "parseNumericDate m key =
     (case m key of
        None \<Rightarrow> Inr None
      | Some (JNumber n) \<Rightarrow> (if n = 0 then Inr None else Inr (Some n))
      | Some _ \<Rightarrow> Inl (ErrInvalidType key))"

definition parseString ::
  "(string \<Rightarrow> json_value option) \<Rightarrow> string \<Rightarrow> claims_error + string" where
  "parseString m key =
     (case m key of
        None \<Rightarrow> Inr []
      | Some (JString v) \<Rightarrow> Inr v
      | Some _ \<Rightarrow> Inl (ErrInvalidType key))"

definition verifyExpiresAt :: "(string \<Rightarrow> json_value option) \<Rightarrow> int \<Rightarrow> claims_error list" where
  "verifyExpiresAt m cmp =
     (case parseNumericDate m ''exp'' of
        Inl err \<Rightarrow> [err]
      | Inr None \<Rightarrow> []
      | Inr (Some exp) \<Rightarrow> (if cmp < exp * Second then [] else [ErrTokenExpired]))"

definition verifyNotBefore :: "(string \<Rightarrow> json_value option) \<Rightarrow> int \<Rightarrow> claims_error list" where
  "verifyNotBefore m cmp =
     (case parseNumericDate m ''nbf'' of
        Inl err \<Rightarrow> [err]
      | Inr None \<Rightarrow> []
      | Inr (Some nbf) \<Rightarrow> (if \<not> cmp < nbf * Second then [] else [ErrTokenNotValidYet]))"

definition verifyIssuer :: "(string \<Rightarrow> json_value option) \<Rightarrow> string \<Rightarrow> claims_error list" where
  "verifyIssuer m cmp =
     (case parseString m ''iss'' of
        Inl err \<Rightarrow> [err]
      | Inr iss \<Rightarrow>
          (if iss = [] then [ErrTokenRequiredClaimMissing ''iss'']
           else if iss = cmp then [] else [ErrTokenInvalidIssuer]))"

text \<open>
  \<^verbatim>\<open>Validator.Validate\<close> with only an expected issuer set: expiry and not-before are
  checked when present, the issuer when the expected issuer is not empty. The errors
  are collected; an empty list is success.
\<close>

definition Validate :: "(string \<Rightarrow> json_value option) \<Rightarrow> int \<Rightarrow> string \<Rightarrow> claims_error list" where
  "Validate m nowT expectedIss =
     verifyExpiresAt m nowT @ verifyNotBefore m nowT
       @ (if expectedIss \<noteq> [] then verifyIssuer m expectedIss else [])"

definition Parse ::
  "(string \<Rightarrow> Segments option) \<Rightarrow> string
     \<Rightarrow> (Token \<Rightarrow> JWKSCache \<times> World \<Rightarrow> ('e + PublicKey) \<times> JWKSCache \<times> World)
     \<Rightarrow> string \<Rightarrow> string list option \<Rightarrow> JWKSCache \<times> World
     \<Rightarrow> ('e jwt_error + Token) \<times> JWKSCache \<times> World" where
  "Parse segs tokenString keyFunc expectedIss validMethods s =
     (case ParseUnverified segs tokenString of
        Inl err \<Rightarrow> (Inl err, s)
      | Inr (token, parts) \<Rightarrow>
          (let alg = (case Method token of Some m \<Rightarrow> Alg_of m | None \<Rightarrow> []) in
           if (case validMethods of None \<Rightarrow> False | Some ms \<Rightarrow> alg \<notin> set ms)
           then (Inl (ErrSigningMethodInvalid alg), s)
           else if \<not> seg_signature_decodes parts then (Inl ErrTokenMalformed, s)
           else
             (case keyFunc token s of
                (Inl err, s') \<Rightarrow> (Inl (ErrKeyfunc err), s')
              | (Inr key, s') \<Rightarrow>
                  if \<not> seg_verifies parts key then (Inl ErrTokenSignatureInvalid, s')
                  else
                    (case Validate (seg_claims parts) (now (snd s')) expectedIss of
                       [] \<Rightarrow> (Inr (token\<lparr>Valid := True\<rparr>), s')
                     | e # es \<Rightarrow> (Inl (ErrTokenInvalidClaims (e # es)), s')))))"

section \<open>auth.go\<close>

datatype keyfunc_error =
    UnexpectedSigningMethod "json_value option"
  | MissingKid
  | KeyLookupFailed GetKey_error

text \<open>
  \<^verbatim>\<open>KeyFunc\<close>; the closures that \<^verbatim>\<open>AuthN\<close> and \<^verbatim>\<open>ValidateToken\<close> pass
  to \<^verbatim>\<open>jwt.Parse\<close> have the same three steps. The cache's \<^verbatim>\<open>GetKey\<close> is the
  argument \<open>getKey\<close>, as the cache is the argument of the Go function.
\<close>

definition KeyFunc ::
  "(string \<Rightarrow> JWKSCache \<times> World \<Rightarrow> (GetKey_error + PublicKey) \<times> JWKSCache \<times> World)
     \<Rightarrow> Token \<Rightarrow> JWKSCache \<times> World \<Rightarrow> (keyfunc_error + PublicKey) \<times> JWKSCache \<times> World" where
  "KeyFunc getKey token s =
     (case Method token of
        Some (SigningMethodRSA a) \<Rightarrow>
          (case Header token ''kid'' of
             Some (JString kid) \<Rightarrow>
               (case getKey kid s of
                  (Inl err, s') \<Rightarrow> (Inl (KeyLookupFailed err), s')
                | (Inr key, s') \<Rightarrow> (Inr key, s'))
           | _ \<Rightarrow> (Inl MissingKid, s))
      | _ \<Rightarrow> (Inl (UnexpectedSigningMethod (Header token ''alg'')), s))"

datatype audience_error = InvalidClaimsType | AudienceNotFound string

fun audienceLoop :: "json_value list \<Rightarrow> string \<Rightarrow> bool" where
  "audienceLoop [] expectedAudience = False"
| "audienceLoop (a # aud) expectedAudience =
     (case a of
        JString s \<Rightarrow> (if s = expectedAudience then True else audienceLoop aud expectedAudience)
      | _ \<Rightarrow> audienceLoop aud expectedAudience)"

definition validateAudience :: "Token \<Rightarrow> string \<Rightarrow> audience_error option" where
  "validateAudience token expectedAudience =
     (case TokenClaims token of
        OtherClaims \<Rightarrow> Some InvalidClaimsType
      | MapClaims claims \<Rightarrow>
          (case claims ''aud'' of
             Some (JString aud) \<Rightarrow>
               (if aud = expectedAudience then None
                else Some (AudienceNotFound expectedAudience))
           | Some (JArray aud) \<Rightarrow>
               (if audienceLoop aud expectedAudience then None
                else Some (AudienceNotFound expectedAudience))
           | _ \<Rightarrow> Some (AudienceNotFound expectedAudience)))"

definition getStringClaim :: "(string \<Rightarrow> json_value option) \<Rightarrow> string \<Rightarrow> string" where
  "getStringClaim m key = (case m key of Some (JString v) \<Rightarrow> v | _ \<Rightarrow> [])"

text \<open>
  The claims struct both \<^verbatim>\<open>AuthN\<close> and \<^verbatim>\<open>ValidateToken\<close> build from the
  payload: three string fields by name, then the roles object when the payload has one.
  \<^verbatim>\<open>OrgDomain\<close> is not among the fields of the literal and keeps Go's zero value.
\<close>

definition buildClaims :: "(string \<Rightarrow> json_value option) \<Rightarrow> Claims" where
  "buildClaims mapClaims =
     (let claims = \<lparr>Sub = getStringClaim mapClaims ''sub'',
                     Email = getStringClaim mapClaims ''email'',
                     OrgID_field = getStringClaim mapClaims ''urn:zitadel:iam:org:id'',
                     OrgDomain_field = [],
                     Roles = None\<rparr> in
      (case mapClaims ''urn:zitadel:iam:org:project:roles'' of
         Some (JObject roles) \<Rightarrow> claims\<lparr>Roles := Some roles\<rparr>
       | _ \<Rightarrow> claims))"

definition unauthorized :: "string \<Rightarrow> HandlerResult" where
  "unauthorized msg = AbortWithStatusJSON StatusUnauthorized [(''error'', msg)]"

text \<open>
  The handler \<^verbatim>\<open>AuthN(cfg)\<close> returns, run on one request. The cache made when the
  middleware was built, and the world, are the state it works on.
\<close>

definition AuthN ::
  "(string \<Rightarrow> Segments option) \<Rightarrow> (string \<Rightarrow> 8 word list option) \<Rightarrow> Config \<Rightarrow> Context
     \<Rightarrow> JWKSCache \<times> World \<Rightarrow> HandlerResult \<times> JWKSCache \<times> World" where
  "AuthN segs dec cfg c s =
     (if FullPath c \<in> set (SkipPaths cfg) then (Next c, s)
      else
        (let tokenStr = extractToken c in
         if tokenStr = [] then
           (unauthorized ''missing or invalid Authorization header'', s)
         else
           (case Parse segs tokenStr (KeyFunc (GetKey dec)) (IssuerURL cfg) (Some [''RS256'']) s of
              (Inl err, s') \<Rightarrow> (unauthorized ''invalid or expired token'', s')
            | (Inr token, s') \<Rightarrow>
                if \<not> Valid token then (unauthorized ''invalid or expired token'', s')
                else if Audience cfg \<noteq> [] \<and> validateAudience token (Audience cfg) \<noteq> None
                then (unauthorized ''token audience mismatch'', s')
                else
                  (case TokenClaims token of
                     OtherClaims \<Rightarrow> (unauthorized ''invalid token claims'', s')
                   | MapClaims mapClaims \<Rightarrow>
                       (Next (SetClaims c (Some (buildClaims mapClaims))), s')))))"

datatype validate_error =
    InvalidToken "keyfunc_error jwt_error option"
  | InvalidClaimsType_error

text \<open>
  \<^verbatim>\<open>ValidateToken\<close> makes a cache of its own on every call and drops it at the end;
  only the world is shared with the caller. It does not look at \<^verbatim>\<open>cfg.Audience\<close>.
\<close>

definition ValidateToken ::
  "(string \<Rightarrow> Segments option) \<Rightarrow> (string \<Rightarrow> 8 word list option) \<Rightarrow> string \<Rightarrow> Config \<Rightarrow> World
     \<Rightarrow> (validate_error + Claims) \<times> World" where
  "ValidateToken segs dec tokenStr cfg w =
     (let jwks = NewJWKSCache (IssuerURL cfg @ ''/oauth/v2/keys'') in
      (case Parse segs tokenStr (KeyFunc (GetKey dec)) (IssuerURL cfg) (Some [''RS256'']) (jwks, w) of
         (Inl err, j', w') \<Rightarrow> (Inl (InvalidToken (Some err)), w')
       | (Inr token, j', w') \<Rightarrow>
           if \<not> Valid token then (Inl (InvalidToken None), w')
           else
             (case TokenClaims token of
                OtherClaims \<Rightarrow> (Inl InvalidClaimsType_error, w')
              | MapClaims mapClaims \<Rightarrow> (Inr (buildClaims mapClaims), w'))))"

section \<open>Inputs used in statements and examples\<close>

text \<open>
  A Go map filled by assigning the entries of a list in order, and a context whose bound
  claims carry a given roles map.
\<close>

definition insertAll :: "(string \<times> json_value) list \<Rightarrow> (string \<Rightarrow> json_value option)" where
  "insertAll es = foldl (\<lambda>m kv. m(fst kv \<mapsto> snd kv)) Map.empty es"

definition bindRoles :: "Context \<Rightarrow> Claims \<Rightarrow> (string \<Rightarrow> json_value option) \<Rightarrow> Context" where
  "bindRoles c cl m = SetClaims c (Some (cl\<lparr>Roles := Some m\<rparr>))"

definition ctx0 :: Context where
  "ctx0 = \<lparr>FullPath = ''/api/data'', RequestHeader = Map.empty, RequestQuery = Map.empty,
            Keys = Map.empty\<rparr>"

definition claims0 :: Claims where
  "claims0 = \<lparr>Sub = ''user-1'', Email = ''u@acme.example'', OrgID_field = ''org-1'',
               OrgDomain_field = [], Roles = None\<rparr>"

definition cfg0 :: Config where
  "cfg0 = \<lparr>IssuerURL = ''https://idp.example'', Audience = ''proj1'', SkipPaths = [''/health'']\<rparr>"

text \<open>Requests: a bare \<^verbatim>\<open>Bearer\<close> header beside a query token, and a header of another scheme.\<close>

definition ctx_bare_bearer :: Context where
  "ctx_bare_bearer = ctx0\<lparr>RequestHeader := [''Authorization'' \<mapsto> ''Bearer ''],
                          RequestQuery := [''token'' \<mapsto> ''abc'']\<rparr>"

definition ctx_basic_auth :: Context where
  "ctx_basic_auth = ctx0\<lparr>RequestHeader := [''Authorization'' \<mapsto> ''Basic dXNlcg''],
                         RequestQuery := [''token'' \<mapsto> ''abc'']\<rparr>"

text \<open>
  A decoder that knows two base64url strings, a published key that uses them, and the
  public key they stand for.
\<close>

definition dec0 :: "string \<Rightarrow> 8 word list option" where
  "dec0 s = (if s = ''AQAB'' then Some [1, 0, 1] else if s = ''AQ'' then Some [1] else None)"

definition jwk1 :: jwksKey where
  "jwk1 = \<lparr>Kty = ''RSA'', Kid = ''k1'', Use = ''sig'', Alg = ''RS256'', N = ''AQ'', E = ''AQAB''\<rparr>"

definition key1 :: PublicKey where
  "key1 = \<lparr>rsa_N = 1, rsa_E = 65537\<rparr>"

definition keysURL :: string where
  "keysURL = ''https://idp.example/oauth/v2/keys''"

text \<open>
  A cache filled at instant 0 with key \<open>k1\<close>; worlds ten seconds and one minute later
  whose endpoint publishes \<open>k1\<close>, and one whose endpoint cannot be reached.
\<close>

definition cache_fresh :: JWKSCache where
  "cache_fresh = \<lparr>jwksURL = keysURL, keys = [''k1'' \<mapsto> key1], lastFetch = 0, cacheTTL = 1 * Hour\<rparr>"

definition world_up :: World where
  "world_up = \<lparr>now = 60 * Second, endpoint = (\<lambda>url. Response 200 (Some \<lparr>RespKeys = [jwk1]\<rparr>)),
               http_calls = 0\<rparr>"

definition world_early :: World where
  "world_early = world_up\<lparr>now := 10 * Second\<rparr>"

definition world_down :: World where
  "world_down = \<lparr>now = 60 * Second, endpoint = (\<lambda>url. GetError), http_calls = 0\<rparr>"

text \<open>
  The outcomes of the GET on which \<^verbatim>\<open>refresh\<close> returns an error, and the test of
  the read-locked fast path of \<^verbatim>\<open>GetKey\<close>.
\<close>

definition failedFetch :: "GetResult \<Rightarrow> bool" where
  "failedFetch r =
     (case r of GetError \<Rightarrow> True | Response status body \<Rightarrow> status \<noteq> StatusOK \<or> body = None)"

definition fastPath :: "JWKSCache \<Rightarrow> World \<Rightarrow> string \<Rightarrow> bool" where
  "fastPath j w kid = (keys j kid \<noteq> None \<and> Since w (lastFetch j) < cacheTTL j)"

text \<open>
  Tokens, by what their segments decode to. \<open>tok-valid\<close> is signed with \<open>k1\<close> by the
  configured issuer for audience \<open>proj1\<close>, expires two hours after the epoch and carries
  every claim the \<^verbatim>\<open>Claims\<close> struct names; the others differ from it in one place.
\<close>

definition roles_admin :: "string \<Rightarrow> json_value option" where
  "roles_admin = [''admin'' \<mapsto> JObject [''org-1'' \<mapsto> JString ''acme.example'']]"

definition payload_valid :: "string \<Rightarrow> json_value option" where
  "payload_valid =
     [''iss'' \<mapsto> JString ''https://idp.example'',
      ''aud'' \<mapsto> JString ''proj1'',
      ''exp'' \<mapsto> JNumber 7200,
      ''sub'' \<mapsto> JString ''user-1'',
      ''email'' \<mapsto> JString ''u@acme.example'',
      ''urn:zitadel:iam:org:id'' \<mapsto> JString ''org-1'',
      ''urn:zitadel:iam:user:resourceowner:primary_domain'' \<mapsto> JString ''acme.example'',
      ''urn:zitadel:iam:org:project:roles'' \<mapsto> JObject roles_admin]"

definition header_of :: "string \<Rightarrow> string \<Rightarrow> json_value option" where
  "header_of alg = [''alg'' \<mapsto> JString alg, ''kid'' \<mapsto> JString ''k1'', ''typ'' \<mapsto> JString ''JWT'']"

definition signed_by_key1 ::
  "(string \<Rightarrow> json_value option) \<Rightarrow> (string \<Rightarrow> json_value option) \<Rightarrow> Segments" where
  "signed_by_key1 hdr payload =
     \<lparr>seg_header = hdr, seg_claims = payload, seg_signature_decodes = True,
      seg_verifies = (\<lambda>k. rsa_N k = 1 \<and> rsa_E k = 65537)\<rparr>"

definition segs0 :: "string \<Rightarrow> Segments option" where
  "segs0 s =
     (if s = ''tok-valid'' then Some (signed_by_key1 (header_of ''RS256'') payload_valid)
      else if s = ''tok-other-aud'' then
        Some (signed_by_key1 (header_of ''RS256'') (payload_valid(''aud'' \<mapsto> JString ''other-proj'')))
      else if s = ''tok-expired'' then
        Some (signed_by_key1 (header_of ''RS256'') (payload_valid(''exp'' \<mapsto> JNumber 30)))
      else if s = ''tok-none'' then Some (signed_by_key1 (header_of ''none'') payload_valid)
      else if s = ''tok-hs256'' then Some (signed_by_key1 (header_of ''HS256'') payload_valid)
      else None)"

definition ctx_bearer :: "string \<Rightarrow> Context" where
  "ctx_bearer tok = ctx0\<lparr>RequestHeader := [''Authorization'' \<mapsto> ''Bearer '' @ tok]\<rparr>"

text \<open>The cache \<^verbatim>\<open>AuthN(cfg)\<close> makes when the middleware is built.\<close>

definition AuthN_cache :: "Config \<Rightarrow> JWKSCache" where
  "AuthN_cache cfg = NewJWKSCache (IssuerURL cfg @ ''/oauth/v2/keys'')"

text \<open>
  The state in which the middleware of \<open>cfg0\<close> meets its first request, and the state
  after that request has fetched the published key; a token as the key function sees it
  when the header names \<open>HS256\<close>.
\<close>

definition state0 :: "JWKSCache \<times> World" where
  "state0 = (AuthN_cache cfg0, world_up)"

definition state1 :: "JWKSCache \<times> World" where
  "state1 = ((AuthN_cache cfg0)\<lparr>keys := [''k1'' \<mapsto> key1], lastFetch := 60 * Second\<rparr>,
             world_up\<lparr>http_calls := 1\<rparr>)"

definition token_hs256 :: Token where
  "token_hs256 = \<lparr>Raw = ''tok-hs256'', Method = Some (SigningMethodHMAC ''HS256''),
                   Header = header_of ''HS256'', TokenClaims = MapClaims payload_valid,
                   Valid = False\<rparr>"


section \<open>Concurrent callers of GetKey\<close>

text \<open>
  Several goroutines call \<^verbatim>\<open>GetKey\<close> on one cache for the same key id. The cache is
  read and written only under its \<^verbatim>\<open>RWMutex\<close>, so a section under the lock is one
  step of its caller, and an execution is an interleaving of such steps:
  \<^item> the read-locked test of the fast path;
  \<^item> entering \<^verbatim>\<open>refresh\<close>: take the write lock, test the 30 second window, and
    either leave at once or send the GET and keep the lock;
  \<^item> leaving \<^verbatim>\<open>refresh\<close>: the GET is answered, the answer is stored or the error
    returned, the lock is released;
  \<^item> the read-locked lookup after a \<^verbatim>\<open>refresh\<close> that returned no error.

  A step that needs the lock while another caller holds the write lock is not enabled.
  The clock advances between steps by any amount that is not negative.
\<close>

datatype caller =
    AtFastPath
  | AtRefresh
  | Fetching GetResult
  | AtLookup
  | Returned "GetKey_error + PublicKey"

record System =
  cache :: JWKSCache
  world :: World
  writer :: "nat option"
  callers :: "caller list"

datatype event = Run nat | Tick int

text \<open>The test of the fast path, and what \<^verbatim>\<open>refresh\<close> does with the answer to its GET.\<close>

definition fastLookup :: "JWKSCache \<Rightarrow> World \<Rightarrow> string \<Rightarrow> PublicKey option" where
  "fastLookup j w kid =
     (case keys j kid of
        Some key \<Rightarrow> if Since w (lastFetch j) < cacheTTL j then Some key else None
      | None \<Rightarrow> None)"

definition storeResponse ::
  "(string \<Rightarrow> 8 word list option) \<Rightarrow> JWKSCache \<Rightarrow> World \<Rightarrow> GetResult
     \<Rightarrow> refresh_error option \<times> JWKSCache" where
  "storeResponse dec j w r =
     (case r of
        GetError \<Rightarrow> (Some JWKSFetchFailed, j)
      | Response status body \<Rightarrow>
          if status \<noteq> StatusOK then (Some (JWKSEndpointStatus status), j)
          else
            (case body of
               None \<Rightarrow> (Some JWKSDecodeFailed, j)
             | Some jwks \<Rightarrow>
                 (None, j\<lparr>keys := collectKeys dec Map.empty (RespKeys jwks),
                           lastFetch := now w\<rparr>)))"

definition setCaller :: "nat \<Rightarrow> caller \<Rightarrow> System \<Rightarrow> System" where
  "setCaller i c s = s\<lparr>callers := (callers s)[i := c]\<rparr>"

definition step ::
  "(string \<Rightarrow> 8 word list option) \<Rightarrow> string \<Rightarrow> event \<Rightarrow> System \<Rightarrow> System option" where
  "step dec kid ev s =
     (case ev of
        Tick d \<Rightarrow>
          if d < 0 then None
          else Some (s\<lparr>world := (world s)\<lparr>now := now (world s) + d\<rparr>\<rparr>)
      | Run i \<Rightarrow>
          if length (callers s) \<le> i then None
          else
            (case callers s ! i of
               AtFastPath \<Rightarrow>
                 if writer s \<noteq> None then None
                 else
                   (case fastLookup (cache s) (world s) kid of
                      Some key \<Rightarrow> Some (setCaller i (Returned (Inr key)) s)
                    | None \<Rightarrow> Some (setCaller i AtRefresh s))
             | AtRefresh \<Rightarrow>
                 if writer s \<noteq> None then None
                 else if Since (world s) (lastFetch (cache s)) < 30 * Second
                 then Some (setCaller i AtLookup s)
                 else
                   (case httpClient_Get (world s) (jwksURL (cache s)) of
                      (r, w') \<Rightarrow>
                        Some (setCaller i (Fetching r) (s\<lparr>world := w', writer := Some i\<rparr>)))
             | Fetching r \<Rightarrow>
                 (case storeResponse dec (cache s) (world s) r of
                    (Some err, j') \<Rightarrow>
                      Some (setCaller i (Returned (Inl (FailedToRefresh err)))
                              (s\<lparr>cache := j', writer := None\<rparr>))
                  | (None, j') \<Rightarrow>
                      Some (setCaller i AtLookup (s\<lparr>cache := j', writer := None\<rparr>)))
             | AtLookup \<Rightarrow>
                 if writer s \<noteq> None then None
                 else
                   (case keys (cache s) kid of
                      None \<Rightarrow> Some (setCaller i (Returned (Inl (KeyNotFound kid))) s)
                    | Some key \<Rightarrow> Some (setCaller i (Returned (Inr key)) s))
             | Returned r \<Rightarrow> Some s))"

fun run ::
  "(string \<Rightarrow> 8 word list option) \<Rightarrow> string \<Rightarrow> event list \<Rightarrow> System \<Rightarrow> System option" where
  "run dec kid [] s = Some s"
| "run dec kid (ev # evs) s =
     (case step dec kid ev s of None \<Rightarrow> None | Some s' \<Rightarrow> run dec kid evs s')"

definition start :: "JWKSCache \<Rightarrow> World \<Rightarrow> nat \<Rightarrow> System" where
  "start j w n = \<lparr>cache = j, world = w, writer = None, callers = replicate n AtFastPath\<rparr>"

fun isFetching :: "caller \<Rightarrow> bool" where
  "isFetching (Fetching r) = True"
| "isFetching c = False"

definition inflight :: "System \<Rightarrow> nat" where
  "inflight s = length (filter isFetching (callers s))"

text \<open>
  The write lock has one holder, and it is the caller that is fetching. \<open>Coalesced\<close>
  describes the states of a race that began at instant \<open>t0\<close> with \<open>c0\<close> GETs counted,
  against an endpoint that answers well: no GET has been sent yet, or one has and it is
  either still in flight or was stored at or after \<open>t0\<close>.
\<close>

definition Inv :: "System \<Rightarrow> bool" where
  "Inv s = (\<forall>i < length (callers s). isFetching (callers s ! i) \<longrightarrow> writer s = Some i)"

definition Coalesced :: "int \<Rightarrow> nat \<Rightarrow> System \<Rightarrow> bool" where
  "Coalesced t0 c0 s =
     (Inv s \<and> t0 \<le> now (world s)
      \<and> (\<forall>url. \<not> failedFetch (endpoint (world s) url))
      \<and> (\<forall>i < length (callers s). \<forall>r. callers s ! i = Fetching r \<longrightarrow> \<not> failedFetch r)
      \<and> ((http_calls (world s) = c0 \<and> writer s = None)
         \<or> (http_calls (world s) = c0 + 1 \<and> (writer s \<noteq> None \<or> t0 \<le> lastFetch (cache s)))))"

text \<open>
  Two schedules for two callers: one against the endpoint that cannot be reached, one
  against the endpoint that publishes \<open>k1\<close>, with two seconds passing while the GET is
  in flight; and the state the second schedule ends in.
\<close>

definition sched_down :: "event list" where
  "sched_down = [Run 0, Run (Suc 0), Run 0, Run 0, Run (Suc 0), Run (Suc 0)]"

definition sched_up :: "event list" where
  "sched_up = [Run 0, Run (Suc 0), Run 0, Tick (2 * Second), Run 0, Run (Suc 0), Run 0, Run (Suc 0)]"

definition final_up :: System where
  "final_up =
     \<lparr>cache = \<lparr>jwksURL = keysURL, keys = [''k1'' \<mapsto> key1], lastFetch = 62 * Second,
               cacheTTL = 1 * Hour\<rparr>,
      world = \<lparr>now = 62 * Second, endpoint = (\<lambda>url. Response 200 (Some \<lparr>RespKeys = [jwk1]\<rparr>)),
               http_calls = 1\<rparr>,
      writer = None,
      callers = [Returned (Inr key1), Returned (Inr key1)]\<rparr>"

section \<open>Properties of the claims accessors and the policy middlewares\<close>

lemma GetClaims_SetClaims: "GetClaims (SetClaims c p) = p"
  by (simp add: GetClaims_def SetClaims_def)

lemma dom_foldl_upd:
  "dom (foldl (\<lambda>m kv. m(fst kv \<mapsto> snd kv)) m0 es) = dom m0 \<union> set (map fst es)"
  by (induction es arbitrary: m0) auto

lemma dom_insertAll: "dom (insertAll es) = set (map fst es)"
  by (simp add: insertAll_def dom_foldl_upd)

lemma HasRole_iff:
  "HasRole c r \<longleftrightarrow> (\<exists>cl m. GetClaims c = Some cl \<and> Roles cl = Some m \<and> r \<in> dom m)"
  by (auto simp: HasRole_def split: option.splits)

lemma HasAnyRole_ex: "HasAnyRole c rs \<longleftrightarrow> (\<exists>r \<in> set rs. HasRole c r)"
  by (induction rs) auto

lemma HasAnyRole_iff:
  "HasAnyRole c rs \<longleftrightarrow>
     (\<exists>cl m. GetClaims c = Some cl \<and> Roles cl = Some m \<and> dom m \<inter> set rs \<noteq> {})"
  unfolding HasAnyRole_ex HasRole_iff by blast

text \<open>
  C7. For every context and every two role names \<open>a\<close>, \<open>b\<close>,
  \<open>HasAnyRole c [a, b]\<close> holds exactly when claims are bound, their roles map is not nil
  and its key set meets \<open>{a, b}\<close>. The result does not change when the two arguments
  are swapped; it is false when no claims are bound and when the roles map is nil or
  empty; and two roles maps filled from entry lists with the same role names, in any
  order, give the same result.
\<close>

theorem HasAnyRole_two_roles:
  "(HasAnyRole c [a, b] \<longleftrightarrow>
      (\<exists>cl m. GetClaims c = Some cl \<and> Roles cl = Some m \<and> dom m \<inter> {a, b} \<noteq> {}))
   \<and> HasAnyRole c [a, b] = HasAnyRole c [b, a]
   \<and> (GetClaims c = None \<longrightarrow> \<not> HasAnyRole c [a, b])
   \<and> (GetClaims c = Some cl \<and> (Roles cl = None \<or> Roles cl = Some Map.empty)
        \<longrightarrow> \<not> HasAnyRole c [a, b])
   \<and> (set (map fst es) = set (map fst es') \<longrightarrow>
        HasAnyRole (bindRoles ctx base (insertAll es)) [a, b]
          = HasAnyRole (bindRoles ctx base (insertAll es')) [a, b])"
proof -
  have 1: "HasAnyRole c [a, b] \<longleftrightarrow>
      (\<exists>cl m. GetClaims c = Some cl \<and> Roles cl = Some m \<and> dom m \<inter> {a, b} \<noteq> {})"
    using HasAnyRole_iff [of c "[a, b]"] by simp
  have 2: "HasAnyRole c [a, b] = HasAnyRole c [b, a]"
    using HasAnyRole_iff [of c "[a, b]"] HasAnyRole_iff [of c "[b, a]"]
    by (simp add: insert_commute)
  have 3: "GetClaims c = None \<longrightarrow> \<not> HasAnyRole c [a, b]"
    by (simp add: HasAnyRole_iff)
  have 4: "GetClaims c = Some cl \<and> (Roles cl = None \<or> Roles cl = Some Map.empty)
        \<longrightarrow> \<not> HasAnyRole c [a, b]"
    by (auto simp: HasAnyRole_iff)
  have 5: "set (map fst es) = set (map fst es') \<longrightarrow>
        HasAnyRole (bindRoles ctx base (insertAll es)) [a, b]
          = HasAnyRole (bindRoles ctx base (insertAll es')) [a, b]"
    by (simp add: HasAnyRole_iff bindRoles_def GetClaims_SetClaims dom_insertAll
          del: HasAnyRole.simps)
  from 1 2 3 4 5 show ?thesis by blast
qed

theorem HasAnyRole_two_roles_witness:
  "HasAnyRole (bindRoles ctx0 claims0 (insertAll [(''admin'', JNull), (''editor'', JBool True)]))
      [''editor'', ''viewer'']
   \<and> GetClaims ctx0 = None \<and> \<not> HasAnyRole ctx0 [''editor'', ''viewer'']
   \<and> GetClaims (SetClaims ctx0 (Some claims0)) = Some claims0 \<and> Roles claims0 = None
   \<and> \<not> HasAnyRole (SetClaims ctx0 (Some claims0)) [''editor'', ''viewer'']
   \<and> set (map fst [(''admin'', JNull), (''editor'', JBool True)])
       = set (map fst [(''editor'', JBool True), (''admin'', JNull)])
   \<and> HasAnyRole (bindRoles ctx0 claims0 (insertAll [(''admin'', JNull), (''editor'', JBool True)]))
        [''editor'', ''viewer'']
     = HasAnyRole (bindRoles ctx0 claims0 (insertAll [(''editor'', JBool True), (''admin'', JNull)]))
        [''editor'', ''viewer'']"
proof -
  let ?es = "[(''admin'', JNull), (''editor'', JBool True)]"
  let ?es' = "[(''editor'', JBool True), (''admin'', JNull)]"
  let ?c = "bindRoles ctx0 claims0 (insertAll ?es)"
  have g: "GetClaims ?c = Some (claims0\<lparr>Roles := Some (insertAll ?es)\<rparr>)"
    by (simp add: bindRoles_def GetClaims_SetClaims)
  have d: "dom (insertAll ?es) \<inter> {''editor'', ''viewer''} \<noteq> {}"
    by (simp add: dom_insertAll)
  have a: "HasAnyRole ?c [''editor'', ''viewer'']"
  proof -
    have "HasAnyRole ?c [''editor'', ''viewer''] \<longleftrightarrow>
        (\<exists>cl m. GetClaims ?c = Some cl \<and> Roles cl = Some m
           \<and> dom m \<inter> {''editor'', ''viewer''} \<noteq> {})"
      using HasAnyRole_two_roles [where c = ?c and a = "''editor''" and b = "''viewer''"]
      by (rule conjunct1)
    moreover have "Roles (claims0\<lparr>Roles := Some (insertAll ?es)\<rparr>) = Some (insertAll ?es)"
      by simp
    ultimately show ?thesis using g d by blast
  qed
  have n: "GetClaims ctx0 = None"
    by (simp add: GetClaims_def ctx0_def)
  have b: "\<not> HasAnyRole ctx0 [''editor'', ''viewer'']"
    using HasAnyRole_two_roles [where c = ctx0 and a = "''editor''" and b = "''viewer''"] n
    by blast
  have g2: "GetClaims (SetClaims ctx0 (Some claims0)) = Some claims0"
    by (simp add: GetClaims_SetClaims)
  have r: "Roles claims0 = None"
    by (simp add: claims0_def)
  have c: "\<not> HasAnyRole (SetClaims ctx0 (Some claims0)) [''editor'', ''viewer'']"
    using HasAnyRole_two_roles [where c = "SetClaims ctx0 (Some claims0)" and a = "''editor''"
        and b = "''viewer''" and cl = claims0] g2 r
    by blast
  have s: "set (map fst ?es) = set (map fst ?es')"
    by auto
  have e: "HasAnyRole (bindRoles ctx0 claims0 (insertAll ?es)) [''editor'', ''viewer'']
     = HasAnyRole (bindRoles ctx0 claims0 (insertAll ?es')) [''editor'', ''viewer'']"
    using HasAnyRole_two_roles [where a = "''editor''" and b = "''viewer''" and es = ?es
        and es' = ?es' and ctx = ctx0 and base = claims0] s
    by blast
  from a n b g2 r c s e show ?thesis by blast
qed

text \<open>
  C8. \<open>RequireTenant\<close> answers 403 with the tenant-context-missing message exactly when
  \<open>OrgID c\<close> is the empty string, which is the bound claims' organization id and is empty
  when no claims are bound; otherwise it calls the next handler on the context it was
  given.
\<close>

theorem RequireTenant_denies_iff:
  "(RequireTenant c =
      AbortWithStatusJSON 403
        [(''error'', ''no organization context '' @ emdash
                     @ '' user must belong to an organization'')]
     \<longleftrightarrow> OrgID c = [])
   \<and> (OrgID c \<noteq> [] \<longrightarrow> RequireTenant c = Next c)
   \<and> (GetClaims c = None \<longrightarrow> OrgID c = [])
   \<and> (GetClaims c = Some cl \<longrightarrow> OrgID c = OrgID_field cl)"
  by (simp add: RequireTenant_def OrgID_def StatusForbidden_def)

theorem RequireTenant_denies_iff_witness:
  "OrgID ctx0 = [] \<and> GetClaims ctx0 = None
   \<and> RequireTenant ctx0 =
      AbortWithStatusJSON 403
        [(''error'', ''no organization context '' @ emdash
                     @ '' user must belong to an organization'')]
   \<and> GetClaims (SetClaims ctx0 (Some claims0)) = Some claims0
   \<and> OrgID (SetClaims ctx0 (Some claims0)) = ''org-1''
   \<and> RequireTenant (SetClaims ctx0 (Some claims0)) = Next (SetClaims ctx0 (Some claims0))"
proof -
  have n: "GetClaims ctx0 = None"
    by (simp add: GetClaims_def ctx0_def)
  have o: "OrgID ctx0 = []"
    using RequireTenant_denies_iff [of ctx0] n by simp
  have d: "RequireTenant ctx0 =
      AbortWithStatusJSON 403
        [(''error'', ''no organization context '' @ emdash
                     @ '' user must belong to an organization'')]"
    using RequireTenant_denies_iff [of ctx0] o by simp
  have g: "GetClaims (SetClaims ctx0 (Some claims0)) = Some claims0"
    by (simp add: GetClaims_SetClaims)
  have o2: "OrgID (SetClaims ctx0 (Some claims0)) = ''org-1''"
    using RequireTenant_denies_iff [of "SetClaims ctx0 (Some claims0)" claims0] g
    by (simp add: claims0_def)
  have a: "RequireTenant (SetClaims ctx0 (Some claims0)) = Next (SetClaims ctx0 (Some claims0))"
    using RequireTenant_denies_iff [of "SetClaims ctx0 (Some claims0)" claims0] o2 by simp
  from n o d g o2 a show ?thesis by blast
qed

text \<open>
  C9. \<open>RequireRole\<close> built with no role names answers 403 to every request, whatever
  claims and roles are bound to it: \<open>HasAnyRole\<close> over an empty list of roles is false.
\<close>

theorem RequireRole_no_roles:
  "RequireRole [] c =
     AbortWithStatusJSON 403
       [(''error'', ''insufficient permissions '' @ emdash @ '' requires one of: '')]
   \<and> \<not> HasAnyRole c []"
  by (simp add: RequireRole_def StatusForbidden_def)

section \<open>Properties of token extraction\<close>

lemma HasPrefix_empty_iff: "HasPrefix s p \<and> TrimPrefix s p = [] \<longleftrightarrow> s = p"
  by (auto simp: HasPrefix_def TrimPrefix_def)

text \<open>
  C10, as the code has it. A header that does not start with \<open>Bearer \<close> is ignored
  without an error and extraction returns the \<open>token\<close> query parameter. Extraction
  yields the empty string exactly when the header is the bare prefix \<open>Bearer \<close>, or the
  header does not start with the prefix and the query parameter is missing or empty. On a
  path that is not skipped, an empty extraction is answered with the 401 missing-token
  response and the cache is left alone.
\<close>

theorem extractToken_empty_iff:
  "(\<not> HasPrefix (GetHeader c ''Authorization'') ''Bearer ''
      \<longrightarrow> extractToken c = Query c ''token'')
   \<and> (extractToken c = [] \<longleftrightarrow>
        GetHeader c ''Authorization'' = ''Bearer ''
        \<or> (\<not> HasPrefix (GetHeader c ''Authorization'') ''Bearer '' \<and> Query c ''token'' = []))
   \<and> (FullPath c \<notin> set (SkipPaths cfg) \<and> extractToken c = []
        \<longrightarrow> AuthN segs dec cfg c s
             = (AbortWithStatusJSON 401 [(''error'', ''missing or invalid Authorization header'')], s))"
proof -
  let ?h = "GetHeader c ''Authorization''"
  have 1: "\<not> HasPrefix ?h ''Bearer '' \<longrightarrow> extractToken c = Query c ''token''"
    by (simp add: extractToken_def Let_def)
  have 2: "extractToken c = [] \<longleftrightarrow>
        ?h = ''Bearer '' \<or> (\<not> HasPrefix ?h ''Bearer '' \<and> Query c ''token'' = [])"
  proof (cases "HasPrefix ?h ''Bearer ''")
    case True
    then have ne: "?h \<noteq> []" by (auto simp: HasPrefix_def)
    from True ne have "extractToken c = TrimPrefix ?h ''Bearer ''"
      by (simp add: extractToken_def Let_def)
    with True HasPrefix_empty_iff [of ?h "''Bearer ''"] show ?thesis by auto
  next
    case False
    then have "?h \<noteq> ''Bearer ''" by (auto simp: HasPrefix_def)
    with False 1 show ?thesis by simp
  qed
  have 3: "FullPath c \<notin> set (SkipPaths cfg) \<and> extractToken c = []
        \<longrightarrow> AuthN segs dec cfg c s
             = (AbortWithStatusJSON 401 [(''error'', ''missing or invalid Authorization header'')], s)"
    by (simp add: AuthN_def unauthorized_def StatusUnauthorized_def)
  from 1 2 3 show ?thesis by blast
qed

theorem extractToken_empty_iff_witness:
  "\<not> HasPrefix (GetHeader ctx_basic_auth ''Authorization'') ''Bearer ''
   \<and> extractToken ctx_basic_auth = ''abc''
   \<and> FullPath ctx0 \<notin> set (SkipPaths cfg0) \<and> extractToken ctx0 = []
   \<and> AuthN segs0 dec0 cfg0 ctx0 (cache_fresh, world_up)
       = (AbortWithStatusJSON 401 [(''error'', ''missing or invalid Authorization header'')],
          cache_fresh, world_up)"
proof -
  have p: "\<not> HasPrefix (GetHeader ctx_basic_auth ''Authorization'') ''Bearer ''"
    by (simp add: ctx_basic_auth_def ctx0_def GetHeader_def HasPrefix_def)
  have q: "Query ctx_basic_auth ''token'' = ''abc''"
    by (simp add: ctx_basic_auth_def ctx0_def Query_def)
  have a: "extractToken ctx_basic_auth = ''abc''"
    using extractToken_empty_iff [of ctx_basic_auth] p q by simp
  have h: "GetHeader ctx0 ''Authorization'' = []" "Query ctx0 ''token'' = []"
    by (simp_all add: ctx0_def GetHeader_def Query_def)
  have s: "FullPath ctx0 \<notin> set (SkipPaths cfg0)"
    by (simp add: ctx0_def cfg0_def)
  have e: "extractToken ctx0 = []"
    using extractToken_empty_iff [of ctx0] h by (simp add: HasPrefix_def)
  have r: "AuthN segs0 dec0 cfg0 ctx0 (cache_fresh, world_up)
       = (AbortWithStatusJSON 401 [(''error'', ''missing or invalid Authorization header'')],
          cache_fresh, world_up)"
    using extractToken_empty_iff [of ctx0 cfg0 segs0 dec0 "(cache_fresh, world_up)"] s e by blast
  from p a s e r show ?thesis by blast
qed

text \<open>
  C10 as stated fails on a request whose header is the bare prefix \<open>Bearer \<close> and whose
  query carries a token: a prefixed header and a non-empty query parameter are both
  present, and extraction still yields the empty string.
\<close>

theorem extractToken_bare_bearer:
  "HasPrefix (GetHeader ctx_bare_bearer ''Authorization'') ''Bearer ''
   \<and> Query ctx_bare_bearer ''token'' = ''abc''
   \<and> extractToken ctx_bare_bearer = []
   \<and> \<not> (extractToken ctx_bare_bearer = [] \<longleftrightarrow>
          \<not> HasPrefix (GetHeader ctx_bare_bearer ''Authorization'') ''Bearer ''
          \<and> \<not> Query ctx_bare_bearer ''token'' \<noteq> [])"
  by (simp add: ctx_bare_bearer_def ctx0_def extractToken_def GetHeader_def Query_def
        HasPrefix_def TrimPrefix_def)

section \<open>Properties of the key cache\<close>

lemmas time_defs = Since_def Sub_time_def Hour_def Second_def maxDuration_def minDuration_def

text \<open>
  C4, as the code has it. A call that misses the fast path goes on to \<open>refresh\<close>, which
  tests a fixed window of 30 seconds since the last successful fetch, not the TTL of the
  fast path. Inside the window nothing is fetched, the cache is left as it is and the
  answer is read from its mapping (not found, for an absent key). Outside the window
  exactly one GET is issued, also when the mapping is still within its TTL: a transport
  error, a status other than 200 or a body that does not decode is returned as a refresh
  failure with the cache unchanged; a good answer replaces the mapping, sets the time of
  the last fetch to now, and the key is looked up in the new mapping (not found, if it is
  absent there). In both cases the answer is the outcome of \<open>refresh\<close> followed by that
  lookup.
\<close>

theorem GetKey_slow_path:
  assumes "\<not> fastPath j w kid"
  shows "(Since w (lastFetch j) < 30 * Second \<longrightarrow>
            GetKey dec kid (j, w)
              = ((case keys j kid of None \<Rightarrow> Inl (KeyNotFound kid) | Some key \<Rightarrow> Inr key), j, w))
       \<and> (\<not> Since w (lastFetch j) < 30 * Second \<longrightarrow>
            http_calls (snd (snd (GetKey dec kid (j, w)))) = http_calls w + 1)
       \<and> (\<not> Since w (lastFetch j) < 30 * Second \<longrightarrow>
            GetKey dec kid (j, w)
              = (case endpoint w (jwksURL j) of
                   GetError \<Rightarrow>
                     (Inl (FailedToRefresh JWKSFetchFailed), j, w\<lparr>http_calls := http_calls w + 1\<rparr>)
                 | Response status body \<Rightarrow>
                     if status \<noteq> StatusOK
                     then (Inl (FailedToRefresh (JWKSEndpointStatus status)), j,
                           w\<lparr>http_calls := http_calls w + 1\<rparr>)
                     else
                       (case body of
                          None \<Rightarrow>
                            (Inl (FailedToRefresh JWKSDecodeFailed), j,
                             w\<lparr>http_calls := http_calls w + 1\<rparr>)
                        | Some jwks \<Rightarrow>
                            ((case collectKeys dec Map.empty (RespKeys jwks) kid of
                                None \<Rightarrow> Inl (KeyNotFound kid)
                              | Some key \<Rightarrow> Inr key),
                             j\<lparr>keys := collectKeys dec Map.empty (RespKeys jwks),
                               lastFetch := now w\<rparr>,
                             w\<lparr>http_calls := http_calls w + 1\<rparr>))))
       \<and> GetKey dec kid (j, w)
           = (case refresh dec (j, w) of
                (Some err, j', w') \<Rightarrow> (Inl (FailedToRefresh err), j', w')
              | (None, j', w') \<Rightarrow>
                  ((case keys j' kid of None \<Rightarrow> Inl (KeyNotFound kid) | Some key \<Rightarrow> Inr key),
                   j', w'))"
proof -
  from assms have miss: "(case keys j kid of
        Some key \<Rightarrow> if Since w (lastFetch j) < cacheTTL j then Some key else None
      | None \<Rightarrow> None) = None"
    by (auto simp: fastPath_def split: option.splits)
  have g: "GetKey dec kid (j, w)
           = (case refresh dec (j, w) of
                (Some err, j', w') \<Rightarrow> (Inl (FailedToRefresh err), j', w')
              | (None, j', w') \<Rightarrow>
                  ((case keys j' kid of None \<Rightarrow> Inl (KeyNotFound kid) | Some key \<Rightarrow> Inr key),
                   j', w'))"
    using miss by (simp add: GetKey_def split: prod.splits option.splits)
  have 1: "Since w (lastFetch j) < 30 * Second \<longrightarrow>
            GetKey dec kid (j, w)
              = ((case keys j kid of None \<Rightarrow> Inl (KeyNotFound kid) | Some key \<Rightarrow> Inr key), j, w)"
    by (simp add: g refresh_def)
  have 3: "\<not> Since w (lastFetch j) < 30 * Second \<longrightarrow>
            GetKey dec kid (j, w)
              = (case endpoint w (jwksURL j) of
                   GetError \<Rightarrow>
                     (Inl (FailedToRefresh JWKSFetchFailed), j, w\<lparr>http_calls := http_calls w + 1\<rparr>)
                 | Response status body \<Rightarrow>
                     if status \<noteq> StatusOK
                     then (Inl (FailedToRefresh (JWKSEndpointStatus status)), j,
                           w\<lparr>http_calls := http_calls w + 1\<rparr>)
                     else
                       (case body of
                          None \<Rightarrow>
                            (Inl (FailedToRefresh JWKSDecodeFailed), j,
                             w\<lparr>http_calls := http_calls w + 1\<rparr>)
                        | Some jwks \<Rightarrow>
                            ((case collectKeys dec Map.empty (RespKeys jwks) kid of
                                None \<Rightarrow> Inl (KeyNotFound kid)
                              | Some key \<Rightarrow> Inr key),
                             j\<lparr>keys := collectKeys dec Map.empty (RespKeys jwks),
                               lastFetch := now w\<rparr>,
                             w\<lparr>http_calls := http_calls w + 1\<rparr>)))"
    by (simp add: g refresh_def httpClient_Get_def Let_def
        split: GetResult.splits option.splits)
  have 2: "\<not> Since w (lastFetch j) < 30 * Second \<longrightarrow>
            http_calls (snd (snd (GetKey dec kid (j, w)))) = http_calls w + 1"
    by (simp add: g refresh_def httpClient_Get_def Let_def
        split: GetResult.splits option.splits)
  from 1 2 3 g show ?thesis by blast
qed

theorem GetKey_slow_path_witness:
  "\<not> fastPath cache_fresh world_early ''k2''
   \<and> Since world_early (lastFetch cache_fresh) < 30 * Second
   \<and> GetKey dec0 ''k2'' (cache_fresh, world_early)
       = (Inl (KeyNotFound ''k2''), cache_fresh, world_early)
   \<and> \<not> fastPath cache_fresh world_up ''k2''
   \<and> \<not> Since world_up (lastFetch cache_fresh) < 30 * Second
   \<and> http_calls (snd (snd (GetKey dec0 ''k2'' (cache_fresh, world_up)))) = http_calls world_up + 1
   \<and> GetKey dec0 ''k2'' (cache_fresh, world_up)
       = (Inl (KeyNotFound ''k2''),
          cache_fresh\<lparr>keys := collectKeys dec0 Map.empty [jwk1], lastFetch := 60 * Second\<rparr>,
          world_up\<lparr>http_calls := 1\<rparr>)
   \<and> collectKeys dec0 Map.empty [jwk1] ''k1'' = Some key1
   \<and> \<not> fastPath cache_fresh world_down ''k2''
   \<and> \<not> Since world_down (lastFetch cache_fresh) < 30 * Second
   \<and> GetKey dec0 ''k2'' (cache_fresh, world_down)
       = (Inl (FailedToRefresh JWKSFetchFailed), cache_fresh, world_down\<lparr>http_calls := 1\<rparr>)"
proof -
  have m1: "\<not> fastPath cache_fresh world_early ''k2''"
    by (simp add: fastPath_def cache_fresh_def)
  have t1: "Since world_early (lastFetch cache_fresh) < 30 * Second"
    by (simp add: world_early_def world_up_def cache_fresh_def time_defs)
  have k: "keys cache_fresh ''k2'' = None"
    by (simp add: cache_fresh_def)
  have r1: "GetKey dec0 ''k2'' (cache_fresh, world_early)
       = (Inl (KeyNotFound ''k2''), cache_fresh, world_early)"
    using GetKey_slow_path [OF m1, of dec0] t1 k by simp
  have m2: "\<not> fastPath cache_fresh world_up ''k2''"
    by (simp add: fastPath_def cache_fresh_def)
  have t2: "\<not> Since world_up (lastFetch cache_fresh) < 30 * Second"
    by (simp add: world_up_def cache_fresh_def time_defs)
  have r2: "http_calls (snd (snd (GetKey dec0 ''k2'' (cache_fresh, world_up)))) = http_calls world_up + 1"
    using GetKey_slow_path [OF m2, of dec0] t2 by blast
  have c: "collectKeys dec0 Map.empty [jwk1] = [''k1'' \<mapsto> key1]"
    by (simp add: jwk1_def parseRSAPublicKey_def dec0_def key1_def SetBytes_def)
  have e2: "endpoint world_up (jwksURL cache_fresh) = Response 200 (Some \<lparr>RespKeys = [jwk1]\<rparr>)"
    "now world_up = 60 * Second" "http_calls world_up = 0"
    by (simp_all add: world_up_def)
  have r3: "GetKey dec0 ''k2'' (cache_fresh, world_up)
       = (Inl (KeyNotFound ''k2''),
          cache_fresh\<lparr>keys := collectKeys dec0 Map.empty [jwk1], lastFetch := 60 * Second\<rparr>,
          world_up\<lparr>http_calls := 1\<rparr>)"
    using GetKey_slow_path [OF m2, of dec0] t2 e2
    by (simp add: StatusOK_def c del: collectKeys.simps)
  have c1: "collectKeys dec0 Map.empty [jwk1] ''k1'' = Some key1"
    by (simp add: c del: collectKeys.simps)
  have m3: "\<not> fastPath cache_fresh world_down ''k2''"
    by (simp add: fastPath_def cache_fresh_def)
  have t3: "\<not> Since world_down (lastFetch cache_fresh) < 30 * Second"
    by (simp add: world_down_def cache_fresh_def time_defs)
  have e3: "endpoint world_down (jwksURL cache_fresh) = GetError" "http_calls world_down = 0"
    by (simp_all add: world_down_def)
  have r4: "GetKey dec0 ''k2'' (cache_fresh, world_down)
       = (Inl (FailedToRefresh JWKSFetchFailed), cache_fresh, world_down\<lparr>http_calls := 1\<rparr>)"
    using GetKey_slow_path [OF m3, of dec0] t3 e3 by simp
  from m1 t1 r1 m2 t2 r2 r3 c1 m3 t3 r4 show ?thesis by blast
qed

text \<open>
  C4 as stated fails on a mapping fetched one minute ago, with a TTL of one hour, that
  lacks \<open>k2\<close>: the answer is not found, and a GET was issued to give it.
\<close>

theorem GetKey_absent_from_fresh_cache_fetches:
  "Since world_up (lastFetch cache_fresh) < cacheTTL cache_fresh
   \<and> keys cache_fresh ''k2'' = None
   \<and> fst (GetKey dec0 ''k2'' (cache_fresh, world_up)) = Inl (KeyNotFound ''k2'')
   \<and> http_calls world_up = 0
   \<and> http_calls (snd (snd (GetKey dec0 ''k2'' (cache_fresh, world_up)))) = 1"
  by (simp add: GetKey_def refresh_def httpClient_Get_def Since_def Sub_time_def cache_fresh_def
        world_up_def Hour_def Second_def maxDuration_def minDuration_def StatusOK_def
        jwk1_def parseRSAPublicKey_def dec0_def keysURL_def)

text \<open>
  C5. Whenever \<open>refresh\<close> returns an error, the cache it returns is the cache it was
  given (key mapping and time of last fetch included), and a \<open>GetKey\<close> that had missed
  the fast path returns that error wrapped as a refresh failure. A transport error, a
  status other than 200 and a body that does not decode each make \<open>refresh\<close> return an
  error once the 30 second window has passed.
\<close>

theorem refresh_failure_keeps_cache:
  "(fst (refresh dec (j, w)) = Some err \<longrightarrow>
      fst (snd (refresh dec (j, w))) = j
      \<and> (\<not> fastPath j w kid \<longrightarrow>
           GetKey dec kid (j, w) = (Inl (FailedToRefresh err), j, snd (snd (refresh dec (j, w))))))
   \<and> (\<not> Since w (lastFetch j) < 30 * Second \<and> failedFetch (endpoint w (jwksURL j))
        \<longrightarrow> fst (refresh dec (j, w)) \<noteq> None)"
  by (auto simp: fastPath_def GetKey_def refresh_def httpClient_Get_def failedFetch_def
        split: option.splits GetResult.splits prod.splits if_splits)

theorem refresh_failure_keeps_cache_witness:
  "\<not> Since world_down (lastFetch cache_fresh) < 30 * Second
   \<and> failedFetch (endpoint world_down (jwksURL cache_fresh))
   \<and> fst (refresh dec0 (cache_fresh, world_down)) = Some JWKSFetchFailed
   \<and> fst (snd (refresh dec0 (cache_fresh, world_down))) = cache_fresh
   \<and> \<not> fastPath cache_fresh world_down ''k2''
   \<and> GetKey dec0 ''k2'' (cache_fresh, world_down)
       = (Inl (FailedToRefresh JWKSFetchFailed), cache_fresh,
          snd (snd (refresh dec0 (cache_fresh, world_down))))"
proof -
  have t: "\<not> Since world_down (lastFetch cache_fresh) < 30 * Second"
    by (simp add: world_down_def cache_fresh_def time_defs)
  have f: "failedFetch (endpoint world_down (jwksURL cache_fresh))"
    by (simp add: failedFetch_def world_down_def)
  have ne: "fst (refresh dec0 (cache_fresh, world_down)) \<noteq> None"
    using refresh_failure_keeps_cache [of dec0 cache_fresh world_down] t f by blast
  have e: "fst (refresh dec0 (cache_fresh, world_down)) = Some JWKSFetchFailed"
    using t by (simp add: refresh_def httpClient_Get_def world_down_def)
  have m: "\<not> fastPath cache_fresh world_down ''k2''"
    by (simp add: fastPath_def cache_fresh_def)
  have u: "fst (snd (refresh dec0 (cache_fresh, world_down))) = cache_fresh"
    using refresh_failure_keeps_cache [of dec0 cache_fresh world_down JWKSFetchFailed] e by blast
  have g: "GetKey dec0 ''k2'' (cache_fresh, world_down)
       = (Inl (FailedToRefresh JWKSFetchFailed), cache_fresh,
          snd (snd (refresh dec0 (cache_fresh, world_down))))"
    using refresh_failure_keeps_cache [of dec0 cache_fresh world_down JWKSFetchFailed "''k2''"] e m
    by blast
  from t f e u m g show ?thesis by blast
qed

section \<open>Properties of token validation\<close>

lemma collect0: "collectKeys dec0 Map.empty [jwk1] = [''k1'' \<mapsto> key1]"
  by (simp add: jwk1_def parseRSAPublicKey_def dec0_def key1_def SetBytes_def)

lemma since_zero: "Since world_up zeroTime = maxDuration"
  by (simp add: Since_def Sub_time_def world_up_def zeroTime_def Second_def maxDuration_def minDuration_def)

lemma GetKey_new_cache:
  "GetKey dec0 ''k1'' (NewJWKSCache u, world_up)
     = (Inr key1, (NewJWKSCache u)\<lparr>keys := [''k1'' \<mapsto> key1], lastFetch := 60 * Second\<rparr>,
        world_up\<lparr>http_calls := 1\<rparr>)"
proof -
  define j0 where "j0 = NewJWKSCache u"
  have j0: "keys j0 ''k1'' = None" "lastFetch j0 = zeroTime" "jwksURL j0 = u"
    by (simp_all add: j0_def NewJWKSCache_def)
  have s: "\<not> Since world_up zeroTime < 30 * Second"
    by (simp add: since_zero maxDuration_def Second_def)
  have e: "endpoint world_up u = Response 200 (Some \<lparr>RespKeys = [jwk1]\<rparr>)"
    by (simp add: world_up_def)
  have n: "now (world_up\<lparr>http_calls := http_calls world_up + 1\<rparr>) = 60 * Second"
    "http_calls world_up = 0"
    by (simp_all add: world_up_def)
  have r: "refresh dec0 (j0, world_up)
      = (None, j0\<lparr>keys := [''k1'' \<mapsto> key1], lastFetch := 60 * Second\<rparr>,
        world_up\<lparr>http_calls := 1\<rparr>)"
    using s e n j0
    by (simp add: refresh_def httpClient_Get_def StatusOK_def collect0
          del: collectKeys.simps)
  have "GetKey dec0 ''k1'' (j0, world_up)
     = (Inr key1, j0\<lparr>keys := [''k1'' \<mapsto> key1], lastFetch := 60 * Second\<rparr>,
        world_up\<lparr>http_calls := 1\<rparr>)"
    using j0 by (simp add: GetKey_def r)
  then show ?thesis by (simp add: j0_def)
qed

lemma Validate_payload_valid:
  "Validate payload_valid (60 * Second) ''https://idp.example'' = []"
  by (simp add: Validate_def verifyExpiresAt_def verifyNotBefore_def verifyIssuer_def
      parseNumericDate_def parseString_def payload_valid_def Second_def)

lemma Alg_of_GetSigningMethod:
  assumes "GetSigningMethod alg = Some m"
  shows "Alg_of m = alg"
proof -
  let ?rs = "alg = ''RS256'' \<or> alg = ''RS384'' \<or> alg = ''RS512''"
  let ?ps = "alg = ''PS256'' \<or> alg = ''PS384'' \<or> alg = ''PS512''"
  let ?hs = "alg = ''HS256'' \<or> alg = ''HS384'' \<or> alg = ''HS512''"
  let ?es = "alg = ''ES256'' \<or> alg = ''ES384'' \<or> alg = ''ES512''"
  show ?thesis
  proof (cases ?rs)
    case True
    then have "GetSigningMethod alg = Some (SigningMethodRSA alg)"
      unfolding GetSigningMethod_def by (simp only: if_True)
    with assms show ?thesis by auto
  next
    case rs: False
    show ?thesis
    proof (cases ?ps)
      case True
      with rs have "GetSigningMethod alg = Some (SigningMethodRSAPSS alg)"
        unfolding GetSigningMethod_def by (simp only: if_True if_False simp_thms)
      with assms show ?thesis by auto
    next
      case ps: False
      show ?thesis
      proof (cases ?hs)
        case True
        with rs ps have "GetSigningMethod alg = Some (SigningMethodHMAC alg)"
          unfolding GetSigningMethod_def by (simp only: if_True if_False simp_thms)
        with assms show ?thesis by auto
      next
        case hs: False
        show ?thesis
        proof (cases ?es)
          case True
          with rs ps hs have "GetSigningMethod alg = Some (SigningMethodECDSA alg)"
            unfolding GetSigningMethod_def by (simp only: if_True if_False simp_thms)
          with assms show ?thesis by auto
        next
          case es: False
          show ?thesis
          proof (cases "alg = ''EdDSA''")
            case True
            with rs ps hs es have "GetSigningMethod alg = Some SigningMethodEd25519"
              unfolding GetSigningMethod_def by (simp only: if_True if_False simp_thms)
            with assms True show ?thesis by auto
          next
            case ed: False
            show ?thesis
            proof (cases "alg = ''none''")
              case True
              with rs ps hs es ed have "GetSigningMethod alg = Some signingMethodNone"
                unfolding GetSigningMethod_def by (simp only: if_True if_False simp_thms)
              with assms True show ?thesis by auto
            next
              case False
              with rs ps hs es ed have "GetSigningMethod alg = None"
                unfolding GetSigningMethod_def by (simp only: if_True if_False simp_thms)
              with assms show ?thesis by auto
            qed
          qed
        qed
      qed
    qed
  qed
qed

lemma Parse_other_alg:
  assumes "segs tokenStr = Some parts"
    and "seg_header parts ''alg'' = Some (JString alg)"
    and "alg \<noteq> ''RS256''"
  shows "Parse segs tokenStr keyFunc iss (Some [''RS256'']) s
     = (Inl (case GetSigningMethod alg of
               None \<Rightarrow> ErrSigningMethodUnavailable
             | Some m \<Rightarrow> ErrSigningMethodInvalid alg), s)"
proof (cases "GetSigningMethod alg")
  case None
  with assms show ?thesis by (simp add: Parse_def ParseUnverified_def)
next
  case (Some m)
  with assms Alg_of_GetSigningMethod [OF Some] show ?thesis
    by (simp add: Parse_def ParseUnverified_def)
qed

lemma Parse_success:
  assumes "segs tokenStr = Some parts"
    and "seg_header parts ''alg'' = Some (JString ''RS256'')"
    and "seg_signature_decodes parts"
    and "keyFunc \<lparr>Raw = tokenStr, Method = Some (SigningMethodRSA ''RS256''),
                   Header = seg_header parts, TokenClaims = MapClaims (seg_claims parts),
                   Valid = False\<rparr> s = (Inr key, s')"
    and "seg_verifies parts key"
    and "Validate (seg_claims parts) (now (snd s')) iss = []"
  shows "Parse segs tokenStr keyFunc iss (Some [''RS256'']) s
     = (Inr \<lparr>Raw = tokenStr, Method = Some (SigningMethodRSA ''RS256''),
              Header = seg_header parts, TokenClaims = MapClaims (seg_claims parts),
              Valid = True\<rparr>, s')"
  using assms by (simp add: Parse_def ParseUnverified_def GetSigningMethod_def)

lemma ParseUnverified_Inr:
  "ParseUnverified segs tokenStr = Inr (token, parts) \<Longrightarrow>
     segs tokenStr = Some parts \<and> TokenClaims token = MapClaims (seg_claims parts)"
  unfolding ParseUnverified_def
  by (auto split: option.splits json_value.splits)

lemma Parse_Inr_Valid:
  fixes keyFunc :: "Token \<Rightarrow> JWKSCache \<times> World \<Rightarrow> ('e + PublicKey) \<times> JWKSCache \<times> World"
  assumes "Parse segs tokenStr keyFunc iss vm s = (Inr token, s')"
  shows "Valid token \<and> (\<exists>parts. segs tokenStr = Some parts
           \<and> TokenClaims token = MapClaims (seg_claims parts))"
proof (cases "ParseUnverified segs tokenStr :: 'e jwt_error + Token \<times> Segments")
  case (Inl e)
  with assms show ?thesis by (simp add: Parse_def)
next
  case (Inr tp)
  obtain t parts where tp: "tp = (t, parts)" by (cases tp)
  from ParseUnverified_Inr [OF Inr [unfolded tp]]
  have p: "segs tokenStr = Some parts" "TokenClaims t = MapClaims (seg_claims parts)"
    by simp_all
  from assms Inr tp have "token = t\<lparr>Valid := True\<rparr>"
    by (simp add: Parse_def Let_def split: if_splits prod.splits sum.splits list.splits)
  with p show ?thesis by auto
qed

lemma buildClaims_fields:
  "Sub (buildClaims m) = getStringClaim m ''sub''"
  "Email (buildClaims m) = getStringClaim m ''email''"
  "OrgID_field (buildClaims m) = getStringClaim m ''urn:zitadel:iam:org:id''"
  "OrgDomain_field (buildClaims m) = []"
  "Roles (buildClaims m) =
     (case m ''urn:zitadel:iam:org:project:roles'' of Some (JObject roles) \<Rightarrow> Some roles | _ \<Rightarrow> None)"
  by (simp_all add: buildClaims_def Let_def split: option.splits json_value.splits)

lemma ValidateToken_valid_token:
  assumes "segs tokenStr = Some parts"
    and "seg_header parts ''alg'' = Some (JString ''RS256'')"
    and "seg_header parts ''kid'' = Some (JString kid)"
    and "seg_signature_decodes parts"
    and "GetKey dec kid (NewJWKSCache (IssuerURL cfg @ ''/oauth/v2/keys''), w) = (Inr key, j', w')"
    and "seg_verifies parts key"
    and "Validate (seg_claims parts) (now w') (IssuerURL cfg) = []"
  shows "ValidateToken segs dec tokenStr cfg w = (Inr (buildClaims (seg_claims parts)), w')"
proof -
  let ?tok = "\<lparr>Raw = tokenStr, Method = Some (SigningMethodRSA ''RS256''),
                   Header = seg_header parts, TokenClaims = MapClaims (seg_claims parts),
                   Valid = False\<rparr>"
  let ?s = "(NewJWKSCache (IssuerURL cfg @ ''/oauth/v2/keys''), w)"
  have k: "KeyFunc (GetKey dec) ?tok ?s = (Inr key, j', w')"
    using assms(3,5) by (simp add: KeyFunc_def)
  have "Parse segs tokenStr (KeyFunc (GetKey dec)) (IssuerURL cfg) (Some [''RS256'']) ?s
      = (Inr (?tok\<lparr>Valid := True\<rparr>), j', w')"
    using Parse_success [where segs = segs and tokenStr = tokenStr and parts = parts
        and keyFunc = "KeyFunc (GetKey dec)" and s = ?s and key = key and s' = "(j', w')"
        and iss = "IssuerURL cfg"] assms k
    by simp
  then show ?thesis
    by (simp add: ValidateToken_def)
qed

lemma segs0_valid: "segs0 ''tok-valid'' = Some (signed_by_key1 (header_of ''RS256'') payload_valid)"
  by (simp add: segs0_def)

lemma extractToken_ctx_bearer: "extractToken (ctx_bearer tok) = tok"
  by (simp add: extractToken_def ctx_bearer_def ctx0_def GetHeader_def HasPrefix_def TrimPrefix_def)

lemma FullPath_ctx_bearer: "FullPath (ctx_bearer tok) \<notin> set (SkipPaths cfg0)"
  by (simp add: ctx_bearer_def ctx0_def cfg0_def)

lemma AuthN_missing:
  "FullPath c \<notin> set (SkipPaths cfg) \<Longrightarrow> extractToken c = [] \<Longrightarrow>
     AuthN segs dec cfg c s = (unauthorized ''missing or invalid Authorization header'', s)"
  by (simp add: AuthN_def)

lemma AuthN_parse_error:
  "FullPath c \<notin> set (SkipPaths cfg) \<Longrightarrow> extractToken c \<noteq> [] \<Longrightarrow>
   Parse segs (extractToken c) (KeyFunc (GetKey dec)) (IssuerURL cfg) (Some [''RS256'']) s = (Inl e, s') \<Longrightarrow>
     AuthN segs dec cfg c s = (unauthorized ''invalid or expired token'', s')"
  by (simp add: AuthN_def)

lemma AuthN_parse_ok:
  assumes "FullPath c \<notin> set (SkipPaths cfg)" and "extractToken c \<noteq> []"
    and "Parse segs (extractToken c) (KeyFunc (GetKey dec)) (IssuerURL cfg) (Some [''RS256'']) s
           = (Inr t, s')"
  shows "AuthN segs dec cfg c s =
     (if Audience cfg \<noteq> [] \<and> validateAudience t (Audience cfg) \<noteq> None
      then (unauthorized ''token audience mismatch'', s')
      else (case TokenClaims t of
              MapClaims mapClaims \<Rightarrow> (Next (SetClaims c (Some (buildClaims mapClaims))), s')
            | OtherClaims \<Rightarrow> (unauthorized ''invalid token claims'', s')))"
proof -
  from Parse_Inr_Valid [OF assms(3)] have "Valid t" by simp
  with assms show ?thesis
    by (simp add: AuthN_def split: jwt_Claims.splits)
qed

text \<open>
  C2, as the code has it. On a path that is not skipped every failure is answered with
  status 401 and a one-entry JSON body, and the message tells the stage that failed: one
  message when no token is extracted, one for every error of \<open>Parse\<close> (malformed token,
  algorithm, key lookup, signature, issuer, expiry, not-before), one for an audience
  mismatch. No other abort occurs; in particular the branch for claims of another type is
  never taken.
\<close>

theorem AuthN_failure_responses:
  "(FullPath c \<notin> set (SkipPaths cfg) \<and> extractToken c = [] \<longrightarrow>
      fst (AuthN segs dec cfg c s)
        = AbortWithStatusJSON 401 [(''error'', ''missing or invalid Authorization header'')])
   \<and> (FullPath c \<notin> set (SkipPaths cfg) \<and> extractToken c \<noteq> []
        \<and> fst (Parse segs (extractToken c) (KeyFunc (GetKey dec)) (IssuerURL cfg)
                 (Some [''RS256'']) s) = Inl e \<longrightarrow>
      fst (AuthN segs dec cfg c s)
        = AbortWithStatusJSON 401 [(''error'', ''invalid or expired token'')])
   \<and> (FullPath c \<notin> set (SkipPaths cfg) \<and> extractToken c \<noteq> []
        \<and> fst (Parse segs (extractToken c) (KeyFunc (GetKey dec)) (IssuerURL cfg)
                 (Some [''RS256'']) s) = Inr t
        \<and> Audience cfg \<noteq> [] \<and> validateAudience t (Audience cfg) \<noteq> None \<longrightarrow>
      fst (AuthN segs dec cfg c s)
        = AbortWithStatusJSON 401 [(''error'', ''token audience mismatch'')])
   \<and> (fst (AuthN segs dec cfg c s) = AbortWithStatusJSON status body \<longrightarrow>
        status = 401
        \<and> (body = [(''error'', ''missing or invalid Authorization header'')]
           \<or> body = [(''error'', ''invalid or expired token'')]
           \<or> body = [(''error'', ''token audience mismatch'')]))"
proof -
  let ?P = "Parse segs (extractToken c) (KeyFunc (GetKey dec)) (IssuerURL cfg) (Some [''RS256'']) s"
  obtain r s' where P: "?P = (r, s')" by (cases ?P)
  have 1: "FullPath c \<notin> set (SkipPaths cfg) \<and> extractToken c = [] \<longrightarrow>
      fst (AuthN segs dec cfg c s)
        = AbortWithStatusJSON 401 [(''error'', ''missing or invalid Authorization header'')]"
    by (simp add: AuthN_missing unauthorized_def StatusUnauthorized_def)
  have 2: "FullPath c \<notin> set (SkipPaths cfg) \<and> extractToken c \<noteq> [] \<and> fst ?P = Inl e \<longrightarrow>
      fst (AuthN segs dec cfg c s)
        = AbortWithStatusJSON 401 [(''error'', ''invalid or expired token'')]"
    using P AuthN_parse_error [of c cfg segs dec s e s']
    by (auto simp: unauthorized_def StatusUnauthorized_def)
  have 3: "FullPath c \<notin> set (SkipPaths cfg) \<and> extractToken c \<noteq> [] \<and> fst ?P = Inr t
        \<and> Audience cfg \<noteq> [] \<and> validateAudience t (Audience cfg) \<noteq> None \<longrightarrow>
      fst (AuthN segs dec cfg c s)
        = AbortWithStatusJSON 401 [(''error'', ''token audience mismatch'')]"
    using P AuthN_parse_ok [of c cfg segs dec s t s']
    by (auto simp: unauthorized_def StatusUnauthorized_def)
  have 4: "fst (AuthN segs dec cfg c s) = AbortWithStatusJSON status body \<longrightarrow>
        status = 401
        \<and> (body = [(''error'', ''missing or invalid Authorization header'')]
           \<or> body = [(''error'', ''invalid or expired token'')]
           \<or> body = [(''error'', ''token audience mismatch'')])"
  proof (cases "FullPath c \<in> set (SkipPaths cfg)")
    case True
    then show ?thesis by (simp add: AuthN_def)
  next
    case skip: False
    show ?thesis
    proof (cases "extractToken c = []")
      case True
      with skip 1 show ?thesis by auto
    next
      case tok: False
      show ?thesis
      proof (cases r)
        case (Inl e')
        with skip tok P AuthN_parse_error [of c cfg segs dec s e' s'] show ?thesis
          by (auto simp: unauthorized_def StatusUnauthorized_def)
      next
        case (Inr t')
        from P Inr Parse_Inr_Valid [of segs "extractToken c" "KeyFunc (GetKey dec)" "IssuerURL cfg"
            "Some [''RS256'']" s t' s']
        obtain m where "TokenClaims t' = MapClaims m" by auto
        with skip tok P Inr AuthN_parse_ok [of c cfg segs dec s t' s'] show ?thesis
          by (auto simp: unauthorized_def StatusUnauthorized_def)
      qed
    qed
  qed
  from 1 2 3 4 show ?thesis by blast
qed

lemma Parse_verified:
  assumes "segs tokenStr = Some parts"
    and "seg_header parts ''alg'' = Some (JString ''RS256'')"
    and "seg_signature_decodes parts"
    and "keyFunc \<lparr>Raw = tokenStr, Method = Some (SigningMethodRSA ''RS256''),
                   Header = seg_header parts, TokenClaims = MapClaims (seg_claims parts),
                   Valid = False\<rparr> s = (Inr key, s')"
    and "seg_verifies parts key"
  shows "Parse segs tokenStr keyFunc iss (Some [''RS256'']) s
     = (case Validate (seg_claims parts) (now (snd s')) iss of
          [] \<Rightarrow> (Inr \<lparr>Raw = tokenStr, Method = Some (SigningMethodRSA ''RS256''),
              Header = seg_header parts, TokenClaims = MapClaims (seg_claims parts),
              Valid = True\<rparr>, s')
        | e # es \<Rightarrow> (Inl (ErrTokenInvalidClaims (e # es)), s'))"
  using assms by (simp add: Parse_def ParseUnverified_def GetSigningMethod_def split: list.splits)

lemma KeyFunc_state0:
  "KeyFunc (GetKey dec0) \<lparr>Raw = r, Method = Some (SigningMethodRSA ''RS256''),
       Header = header_of ''RS256'', TokenClaims = cl, Valid = v\<rparr> state0 = (Inr key1, state1)"
  by (simp add: KeyFunc_def header_of_def state0_def state1_def AuthN_cache_def GetKey_new_cache)

lemma Parse_signed_by_key1:
  assumes "segs0 tok = Some (signed_by_key1 (header_of ''RS256'') payload)"
  shows "Parse segs0 tok (KeyFunc (GetKey dec0)) iss (Some [''RS256'']) state0
     = (case Validate payload (60 * Second) iss of
          [] \<Rightarrow> (Inr \<lparr>Raw = tok, Method = Some (SigningMethodRSA ''RS256''),
              Header = header_of ''RS256'', TokenClaims = MapClaims payload,
              Valid = True\<rparr>, state1)
        | e # es \<Rightarrow> (Inl (ErrTokenInvalidClaims (e # es)), state1))"
proof -
  let ?parts = "signed_by_key1 (header_of ''RS256'') payload"
  have h: "seg_header ?parts ''alg'' = Some (JString ''RS256'')" "seg_signature_decodes ?parts"
    "seg_verifies ?parts key1" "seg_header ?parts = header_of ''RS256''"
    "seg_claims ?parts = payload"
    by (simp_all add: signed_by_key1_def header_of_def key1_def)
  have n: "now (snd state1) = 60 * Second"
    by (simp add: state1_def world_up_def)
  have k: "KeyFunc (GetKey dec0) \<lparr>Raw = tok, Method = Some (SigningMethodRSA ''RS256''),
                   Header = seg_header ?parts, TokenClaims = MapClaims (seg_claims ?parts),
                   Valid = False\<rparr> state0 = (Inr key1, state1)"
    unfolding h by (rule KeyFunc_state0)
  show ?thesis
    using Parse_verified [where segs = segs0 and tokenStr = tok and parts = ?parts
        and keyFunc = "KeyFunc (GetKey dec0)" and s = state0 and key = key1 and s' = state1
        and iss = iss, OF assms h(1) h(2) k h(3)]
    by (simp only: h n)
qed

lemma Validate_expired:
  "Validate (payload_valid(''exp'' \<mapsto> JNumber 30)) (60 * Second) ''https://idp.example''
     = [ErrTokenExpired]"
  by (simp add: Validate_def verifyExpiresAt_def verifyNotBefore_def verifyIssuer_def
      parseNumericDate_def parseString_def payload_valid_def Second_def)

lemma Validate_other_aud:
  "Validate (payload_valid(''aud'' \<mapsto> JString ''other-proj'')) (60 * Second) ''https://idp.example''
     = []"
  by (simp add: Validate_def verifyExpiresAt_def verifyNotBefore_def verifyIssuer_def
      parseNumericDate_def parseString_def payload_valid_def Second_def)

lemma Parse_expired:
  "Parse segs0 ''tok-expired'' (KeyFunc (GetKey dec0)) (IssuerURL cfg0) (Some [''RS256'']) state0
     = (Inl (ErrTokenInvalidClaims [ErrTokenExpired]), state1)"
proof -
  have "segs0 ''tok-expired''
      = Some (signed_by_key1 (header_of ''RS256'') (payload_valid(''exp'' \<mapsto> JNumber 30)))"
    by (simp add: segs0_def)
  from Parse_signed_by_key1 [OF this, of "IssuerURL cfg0"] show ?thesis
    by (simp add: cfg0_def Validate_expired)
qed

lemma Parse_other_aud:
  "Parse segs0 ''tok-other-aud'' (KeyFunc (GetKey dec0)) (IssuerURL cfg0) (Some [''RS256'']) state0
     = (Inr \<lparr>Raw = ''tok-other-aud'', Method = Some (SigningMethodRSA ''RS256''),
              Header = header_of ''RS256'',
              TokenClaims = MapClaims (payload_valid(''aud'' \<mapsto> JString ''other-proj'')),
              Valid = True\<rparr>, state1)"
proof -
  have "segs0 ''tok-other-aud''
      = Some (signed_by_key1 (header_of ''RS256'') (payload_valid(''aud'' \<mapsto> JString ''other-proj'')))"
    by (simp add: segs0_def)
  from Parse_signed_by_key1 [OF this, of "IssuerURL cfg0"] show ?thesis
    by (simp add: cfg0_def Validate_other_aud)
qed

lemma Parse_valid:
  "Parse segs0 ''tok-valid'' (KeyFunc (GetKey dec0)) (IssuerURL cfg0) (Some [''RS256'']) state0
     = (Inr \<lparr>Raw = ''tok-valid'', Method = Some (SigningMethodRSA ''RS256''),
              Header = header_of ''RS256'', TokenClaims = MapClaims payload_valid,
              Valid = True\<rparr>, state1)"
proof -
  from Parse_signed_by_key1 [OF segs0_valid, of "IssuerURL cfg0"] show ?thesis
    by (simp add: cfg0_def Validate_payload_valid)
qed

lemma AuthN_expired:
  "AuthN segs0 dec0 cfg0 (ctx_bearer ''tok-expired'') state0
     = (unauthorized ''invalid or expired token'', state1)"
  using AuthN_parse_error [of "ctx_bearer ''tok-expired''" cfg0 segs0 dec0 state0 _ state1]
    Parse_expired FullPath_ctx_bearer
  by (simp add: extractToken_ctx_bearer)

lemma AuthN_other_aud:
  "AuthN segs0 dec0 cfg0 (ctx_bearer ''tok-other-aud'') state0
     = (unauthorized ''token audience mismatch'', state1)"
proof -
  have "validateAudience \<lparr>Raw = ''tok-other-aud'', Method = Some (SigningMethodRSA ''RS256''),
              Header = header_of ''RS256'',
              TokenClaims = MapClaims (payload_valid(''aud'' \<mapsto> JString ''other-proj'')),
              Valid = True\<rparr> (Audience cfg0) = Some (AudienceNotFound ''proj1'')"
    by (simp add: validateAudience_def cfg0_def)
  moreover have "Audience cfg0 \<noteq> []" by (simp add: cfg0_def)
  ultimately show ?thesis
    using AuthN_parse_ok [of "ctx_bearer ''tok-other-aud''" cfg0 segs0 dec0 state0 _ state1]
      Parse_other_aud FullPath_ctx_bearer
    by (simp add: extractToken_ctx_bearer)
qed

lemma AuthN_valid:
  "AuthN segs0 dec0 cfg0 (ctx_bearer ''tok-valid'') state0
     = (Next (SetClaims (ctx_bearer ''tok-valid'') (Some (buildClaims payload_valid))), state1)"
proof -
  have "validateAudience \<lparr>Raw = ''tok-valid'', Method = Some (SigningMethodRSA ''RS256''),
              Header = header_of ''RS256'', TokenClaims = MapClaims payload_valid,
              Valid = True\<rparr> (Audience cfg0) = None"
    by (simp add: validateAudience_def cfg0_def payload_valid_def)
  then show ?thesis
    using AuthN_parse_ok [of "ctx_bearer ''tok-valid''" cfg0 segs0 dec0 state0 _ state1]
      Parse_valid FullPath_ctx_bearer
    by (simp add: extractToken_ctx_bearer)
qed

lemma AuthN_ctx0:
  "AuthN segs0 dec0 cfg0 ctx0 state0
     = (unauthorized ''missing or invalid Authorization header'', state0)"
proof -
  have "extractToken ctx0 = []"
    by (simp add: extractToken_def ctx0_def GetHeader_def Query_def)
  moreover have "FullPath ctx0 \<notin> set (SkipPaths cfg0)"
    by (simp add: ctx0_def cfg0_def)
  ultimately show ?thesis by (rule AuthN_missing [rotated])
qed

text \<open>
  C1, at the input where the code departs from it. \<open>tok-valid\<close> is signed with the
  allow-listed algorithm by the configured issuer for the configured audience and has not
  expired; its payload names the organization domain \<open>acme.example\<close>. Validation
  succeeds, and subject, email, organization id and roles of the returned claims are the
  payload's, but the organization domain is empty: neither \<open>ValidateToken\<close> nor
  \<open>AuthN\<close> reads it from the payload, for any payload, so the \<open>OrgDomain\<close> accessor
  answers the empty string for every authenticated request.
\<close>

theorem ValidateToken_drops_org_domain:
  "payload_valid ''urn:zitadel:iam:user:resourceowner:primary_domain'' = Some (JString ''acme.example'')
   \<and> ValidateToken segs0 dec0 ''tok-valid'' cfg0 world_up
       = (Inr \<lparr>Sub = ''user-1'', Email = ''u@acme.example'', OrgID_field = ''org-1'',
               OrgDomain_field = [], Roles = Some roles_admin\<rparr>,
          world_up\<lparr>http_calls := 1\<rparr>)
   \<and> fst (AuthN segs0 dec0 cfg0 (ctx_bearer ''tok-valid'') state0)
       = Next (SetClaims (ctx_bearer ''tok-valid'') (Some (buildClaims payload_valid)))
   \<and> OrgDomain (SetClaims (ctx_bearer ''tok-valid'') (Some (buildClaims payload_valid))) = []
   \<and> OrgDomain_field (buildClaims m) = []"
proof -
  have a: "fst (AuthN segs0 dec0 cfg0 (ctx_bearer ''tok-valid'') state0)
       = Next (SetClaims (ctx_bearer ''tok-valid'') (Some (buildClaims payload_valid)))"
    by (simp add: AuthN_valid)
  have o: "OrgDomain (SetClaims (ctx_bearer ''tok-valid'') (Some (buildClaims payload_valid))) = []"
    by (simp add: OrgDomain_def GetClaims_SetClaims buildClaims_fields)
  have p: "payload_valid ''urn:zitadel:iam:user:resourceowner:primary_domain''
      = Some (JString ''acme.example'')"
    by (simp add: payload_valid_def)
  have v: "Validate payload_valid (now (world_up\<lparr>http_calls := 1\<rparr>)) (IssuerURL cfg0) = []"
    using Validate_payload_valid by (simp add: world_up_def cfg0_def)
  have "ValidateToken segs0 dec0 ''tok-valid'' cfg0 world_up
      = (Inr (buildClaims payload_valid), world_up\<lparr>http_calls := 1\<rparr>)"
    using ValidateToken_valid_token [where segs = segs0 and tokenStr = "''tok-valid''"
        and parts = "signed_by_key1 (header_of ''RS256'') payload_valid" and kid = "''k1''"
        and dec = dec0 and cfg = cfg0 and w = world_up and key = key1
        and w' = "world_up\<lparr>http_calls := 1\<rparr>"] v segs0_valid
    by (simp add: signed_by_key1_def header_of_def GetKey_new_cache key1_def)
  moreover have "buildClaims payload_valid
      = \<lparr>Sub = ''user-1'', Email = ''u@acme.example'', OrgID_field = ''org-1'',
               OrgDomain_field = [], Roles = Some roles_admin\<rparr>"
    by (simp add: buildClaims_def getStringClaim_def payload_valid_def)
  ultimately show ?thesis using p a o by (simp add: buildClaims_fields)
qed

text \<open>
  C2 as stated fails: a request without a token, one with an expired token and one with
  a token for another audience get three different 401 bodies.
\<close>

theorem AuthN_messages_differ:
  "fst (AuthN segs0 dec0 cfg0 ctx0 state0)
     = AbortWithStatusJSON 401 [(''error'', ''missing or invalid Authorization header'')]
   \<and> fst (AuthN segs0 dec0 cfg0 (ctx_bearer ''tok-expired'') state0)
     = AbortWithStatusJSON 401 [(''error'', ''invalid or expired token'')]
   \<and> fst (AuthN segs0 dec0 cfg0 (ctx_bearer ''tok-other-aud'') state0)
     = AbortWithStatusJSON 401 [(''error'', ''token audience mismatch'')]
   \<and> fst (AuthN segs0 dec0 cfg0 ctx0 state0)
       \<noteq> fst (AuthN segs0 dec0 cfg0 (ctx_bearer ''tok-expired'') state0)
   \<and> fst (AuthN segs0 dec0 cfg0 (ctx_bearer ''tok-expired'') state0)
       \<noteq> fst (AuthN segs0 dec0 cfg0 (ctx_bearer ''tok-other-aud'') state0)"
  by (simp add: AuthN_ctx0 AuthN_expired AuthN_other_aud unauthorized_def StatusUnauthorized_def)

theorem AuthN_failure_responses_witness:
  "FullPath ctx0 \<notin> set (SkipPaths cfg0) \<and> extractToken ctx0 = []
   \<and> fst (AuthN segs0 dec0 cfg0 ctx0 state0)
       = AbortWithStatusJSON 401 [(''error'', ''missing or invalid Authorization header'')]
   \<and> FullPath (ctx_bearer ''tok-expired'') \<notin> set (SkipPaths cfg0)
   \<and> extractToken (ctx_bearer ''tok-expired'') \<noteq> []
   \<and> fst (Parse segs0 (extractToken (ctx_bearer ''tok-expired'')) (KeyFunc (GetKey dec0))
             (IssuerURL cfg0) (Some [''RS256'']) state0)
       = Inl (ErrTokenInvalidClaims [ErrTokenExpired])
   \<and> fst (AuthN segs0 dec0 cfg0 (ctx_bearer ''tok-expired'') state0)
       = AbortWithStatusJSON 401 [(''error'', ''invalid or expired token'')]
   \<and> Audience cfg0 \<noteq> []
   \<and> fst (AuthN segs0 dec0 cfg0 (ctx_bearer ''tok-other-aud'') state0)
       = AbortWithStatusJSON 401 [(''error'', ''token audience mismatch'')]"
proof -
  have a1: "FullPath ctx0 \<notin> set (SkipPaths cfg0)"
    by (simp add: ctx0_def cfg0_def)
  have a2: "extractToken ctx0 = []"
    by (simp add: extractToken_def ctx0_def GetHeader_def Query_def)
  have a3: "fst (AuthN segs0 dec0 cfg0 ctx0 state0)
       = AbortWithStatusJSON 401 [(''error'', ''missing or invalid Authorization header'')]"
    using AuthN_failure_responses [where c = ctx0 and cfg = cfg0 and segs = segs0 and dec = dec0
        and s = state0] a1 a2
    by blast
  have b1: "FullPath (ctx_bearer ''tok-expired'') \<notin> set (SkipPaths cfg0)"
    by (rule FullPath_ctx_bearer)
  have b2: "extractToken (ctx_bearer ''tok-expired'') \<noteq> []"
    by (simp add: extractToken_ctx_bearer)
  have b3: "fst (Parse segs0 (extractToken (ctx_bearer ''tok-expired'')) (KeyFunc (GetKey dec0))
             (IssuerURL cfg0) (Some [''RS256'']) state0)
       = Inl (ErrTokenInvalidClaims [ErrTokenExpired])"
    by (simp add: extractToken_ctx_bearer Parse_expired)
  have b4: "fst (AuthN segs0 dec0 cfg0 (ctx_bearer ''tok-expired'') state0)
       = AbortWithStatusJSON 401 [(''error'', ''invalid or expired token'')]"
    using AuthN_failure_responses [where c = "ctx_bearer ''tok-expired''" and cfg = cfg0
        and segs = segs0 and dec = dec0 and s = state0
        and e = "ErrTokenInvalidClaims [ErrTokenExpired]"] b1 b2 b3
    by blast
  let ?t = "\<lparr>Raw = ''tok-other-aud'', Method = Some (SigningMethodRSA ''RS256''),
              Header = header_of ''RS256'',
              TokenClaims = MapClaims (payload_valid(''aud'' \<mapsto> JString ''other-proj'')),
              Valid = True\<rparr>"
  have c1: "FullPath (ctx_bearer ''tok-other-aud'') \<notin> set (SkipPaths cfg0)"
    by (rule FullPath_ctx_bearer)
  have c2: "extractToken (ctx_bearer ''tok-other-aud'') \<noteq> []"
    by (simp add: extractToken_ctx_bearer)
  have c3: "fst (Parse segs0 (extractToken (ctx_bearer ''tok-other-aud'')) (KeyFunc (GetKey dec0))
             (IssuerURL cfg0) (Some [''RS256'']) state0) = Inr ?t"
    by (simp add: extractToken_ctx_bearer Parse_other_aud)
  have c4: "Audience cfg0 \<noteq> []" by (simp add: cfg0_def)
  have c5: "validateAudience ?t (Audience cfg0) \<noteq> None"
    by (simp add: validateAudience_def cfg0_def)
  have c6: "fst (AuthN segs0 dec0 cfg0 (ctx_bearer ''tok-other-aud'') state0)
       = AbortWithStatusJSON 401 [(''error'', ''token audience mismatch'')]"
    using AuthN_failure_responses [where c = "ctx_bearer ''tok-other-aud''" and cfg = cfg0
        and segs = segs0 and dec = dec0 and s = state0 and t = ?t] c1 c2 c3 c4 c5
    by blast
  from a1 a2 a3 b1 b2 b3 b4 c4 c6 show ?thesis by blast
qed

text \<open>
  C3. A token whose header declares any algorithm other than \<open>RS256\<close> (so every
  algorithm outside the RSA-signature family, \<open>none\<close> and the symmetric ones included)
  makes \<open>Parse\<close> fail with a signing-method error, whatever the key function is, and
  with the cache and the world as they were: the key function, and with it \<open>GetKey\<close>,
  is not run. \<open>KeyFunc\<close> on its own refuses every method that is not an RSA signing
  method before it looks at the key id, again without touching the state. \<open>AuthN\<close>
  answers such a token with 401 and leaves the state unchanged.
\<close>

theorem other_algorithm_rejected_before_key_lookup:
  "(segs tokenStr = Some parts \<and> seg_header parts ''alg'' = Some (JString alg)
      \<and> alg \<noteq> ''RS256'' \<longrightarrow>
      Parse segs tokenStr keyFunc iss (Some [''RS256'']) s
        = (Inl (case GetSigningMethod alg of
                  None \<Rightarrow> ErrSigningMethodUnavailable
                | Some m \<Rightarrow> ErrSigningMethodInvalid alg), s))
   \<and> ((\<forall>a. Method token \<noteq> Some (SigningMethodRSA a)) \<longrightarrow>
        KeyFunc getKey token s = (Inl (UnexpectedSigningMethod (Header token ''alg'')), s))
   \<and> (segs (extractToken c) = Some parts \<and> seg_header parts ''alg'' = Some (JString alg)
        \<and> alg \<noteq> ''RS256'' \<and> FullPath c \<notin> set (SkipPaths cfg) \<and> extractToken c \<noteq> [] \<longrightarrow>
        AuthN segs dec cfg c s
          = (AbortWithStatusJSON 401 [(''error'', ''invalid or expired token'')], s))"
proof -
  have 1: "segs tokenStr = Some parts \<and> seg_header parts ''alg'' = Some (JString alg)
      \<and> alg \<noteq> ''RS256'' \<longrightarrow>
      Parse segs tokenStr keyFunc iss (Some [''RS256'']) s
        = (Inl (case GetSigningMethod alg of
                  None \<Rightarrow> ErrSigningMethodUnavailable
                | Some m \<Rightarrow> ErrSigningMethodInvalid alg), s)"
    using Parse_other_alg [of segs tokenStr parts alg keyFunc iss s] by blast
  have 2: "(\<forall>a. Method token \<noteq> Some (SigningMethodRSA a)) \<longrightarrow>
        KeyFunc getKey token s = (Inl (UnexpectedSigningMethod (Header token ''alg'')), s)"
    by (auto simp: KeyFunc_def split: option.splits SigningMethod.splits)
  have 3: "segs (extractToken c) = Some parts \<and> seg_header parts ''alg'' = Some (JString alg)
        \<and> alg \<noteq> ''RS256'' \<and> FullPath c \<notin> set (SkipPaths cfg) \<and> extractToken c \<noteq> [] \<longrightarrow>
        AuthN segs dec cfg c s
          = (AbortWithStatusJSON 401 [(''error'', ''invalid or expired token'')], s)"
    using Parse_other_alg [of segs "extractToken c" parts alg "KeyFunc (GetKey dec)" "IssuerURL cfg" s]
      AuthN_parse_error [of c cfg segs dec s _ s]
    by (auto simp: unauthorized_def StatusUnauthorized_def)
  from 1 2 3 show ?thesis by blast
qed

theorem other_algorithm_rejected_before_key_lookup_witness:
  "segs0 ''tok-none'' = Some (signed_by_key1 (header_of ''none'') payload_valid)
   \<and> seg_header (signed_by_key1 (header_of ''none'') payload_valid) ''alg'' = Some (JString ''none'')
   \<and> ''none'' \<noteq> ''RS256''
   \<and> Parse segs0 ''tok-none'' (KeyFunc (GetKey dec0)) (IssuerURL cfg0) (Some [''RS256'']) state0
       = (Inl (ErrSigningMethodInvalid ''none''), state0)
   \<and> (\<forall>a. Method token_hs256 \<noteq> Some (SigningMethodRSA a))
   \<and> KeyFunc (GetKey dec0) token_hs256 state0
       = (Inl (UnexpectedSigningMethod (Some (JString ''HS256''))), state0)
   \<and> segs0 (extractToken (ctx_bearer ''tok-hs256''))
       = Some (signed_by_key1 (header_of ''HS256'') payload_valid)
   \<and> FullPath (ctx_bearer ''tok-hs256'') \<notin> set (SkipPaths cfg0)
   \<and> extractToken (ctx_bearer ''tok-hs256'') \<noteq> []
   \<and> AuthN segs0 dec0 cfg0 (ctx_bearer ''tok-hs256'') state0
       = (AbortWithStatusJSON 401 [(''error'', ''invalid or expired token'')], state0)
   \<and> http_calls (snd state0) = 0
   \<and> http_calls (snd (snd (AuthN segs0 dec0 cfg0 (ctx_bearer ''tok-valid'') state0))) = 1"
proof -
  let ?none = "signed_by_key1 (header_of ''none'') payload_valid"
  let ?hs = "signed_by_key1 (header_of ''HS256'') payload_valid"
  have a1: "segs0 ''tok-none'' = Some ?none"
    by (simp add: segs0_def)
  have a2: "seg_header ?none ''alg'' = Some (JString ''none'')"
    by (simp add: signed_by_key1_def header_of_def)
  have a3: "''none'' \<noteq> ''RS256''" by simp
  have g: "GetSigningMethod ''none'' = Some signingMethodNone"
    "GetSigningMethod ''HS256'' = Some (SigningMethodHMAC ''HS256'')"
    by (simp_all add: GetSigningMethod_def)
  have a4: "Parse segs0 ''tok-none'' (KeyFunc (GetKey dec0)) (IssuerURL cfg0) (Some [''RS256'']) state0
       = (Inl (ErrSigningMethodInvalid ''none''), state0)"
    using other_algorithm_rejected_before_key_lookup [where segs = segs0
        and tokenStr = "''tok-none''" and parts = ?none and alg = "''none''"
        and keyFunc = "KeyFunc (GetKey dec0)" and iss = "IssuerURL cfg0" and s = state0]
      a1 a2 a3 g
    by simp
  have b1: "\<forall>a. Method token_hs256 \<noteq> Some (SigningMethodRSA a)"
    by (simp add: token_hs256_def)
  have b2: "KeyFunc (GetKey dec0) token_hs256 state0
       = (Inl (UnexpectedSigningMethod (Some (JString ''HS256''))), state0)"
  proof -
    have "KeyFunc (GetKey dec0) token_hs256 state0
       = (Inl (UnexpectedSigningMethod (Header token_hs256 ''alg'')), state0)"
      using other_algorithm_rejected_before_key_lookup [where token = token_hs256
          and getKey = "GetKey dec0" and s = state0] b1
      by blast
    then show ?thesis by (simp add: token_hs256_def header_of_def)
  qed
  have c1: "segs0 (extractToken (ctx_bearer ''tok-hs256'')) = Some ?hs"
    by (simp add: extractToken_ctx_bearer segs0_def)
  have c2: "seg_header ?hs ''alg'' = Some (JString ''HS256'')"
    by (simp add: signed_by_key1_def header_of_def)
  have c3: "''HS256'' \<noteq> ''RS256''" by simp
  have c4: "FullPath (ctx_bearer ''tok-hs256'') \<notin> set (SkipPaths cfg0)"
    by (rule FullPath_ctx_bearer)
  have c5: "extractToken (ctx_bearer ''tok-hs256'') \<noteq> []"
    by (simp add: extractToken_ctx_bearer)
  have c6: "AuthN segs0 dec0 cfg0 (ctx_bearer ''tok-hs256'') state0
       = (AbortWithStatusJSON 401 [(''error'', ''invalid or expired token'')], state0)"
    using other_algorithm_rejected_before_key_lookup [where segs = segs0
        and c = "ctx_bearer ''tok-hs256''" and parts = ?hs and alg = "''HS256''"
        and cfg = cfg0 and dec = dec0 and s = state0]
      c1 c2 c3 c4 c5
    by blast
  have d1: "http_calls (snd state0) = 0"
    by (simp add: state0_def world_up_def)
  have d2: "http_calls (snd (snd (AuthN segs0 dec0 cfg0 (ctx_bearer ''tok-valid'') state0))) = 1"
    by (simp add: AuthN_valid state1_def)
  from a1 a2 a3 a4 b1 b2 c1 c4 c5 c6 d1 d2 show ?thesis by blast
qed

section \<open>Properties of concurrent callers\<close>

text \<open>
  One caller taking its steps alone computes \<open>GetKey\<close>: the interleaving model and the
  sequential function are the same code.
\<close>

lemma refresh_as_steps:
  "refresh dec (j, w) =
     (if Since w (lastFetch j) < 30 * Second then (None, j, w)
      else (case httpClient_Get w (jwksURL j) of
              (r, w') \<Rightarrow> (case storeResponse dec j w' r of (e, j') \<Rightarrow> (e, j', w'))))"
  by (simp add: refresh_def storeResponse_def httpClient_Get_def Let_def
      split: GetResult.splits option.splits)

lemma GetKey_as_steps:
  "GetKey dec kid (j, w) =
     (case fastLookup j w kid of
        Some key \<Rightarrow> (Inr key, j, w)
      | None \<Rightarrow>
          (case refresh dec (j, w) of
             (Some err, j', w') \<Rightarrow> (Inl (FailedToRefresh err), j', w')
           | (None, j', w') \<Rightarrow>
               (case keys j' kid of
                  None \<Rightarrow> (Inl (KeyNotFound kid), j', w')
                | Some key \<Rightarrow> (Inr key, j', w'))))"
  by (simp add: GetKey_def fastLookup_def)

lemma step_AtFastPath_solo:
  "step dec kid (Run 0) \<lparr>cache = j, world = w, writer = None, callers = [AtFastPath]\<rparr>
     = Some \<lparr>cache = j, world = w, writer = None,
             callers = [case fastLookup j w kid of
                          Some key \<Rightarrow> Returned (Inr key) | None \<Rightarrow> AtRefresh]\<rparr>"
  by (simp add: step_def setCaller_def split: option.splits)

lemma step_AtRefresh_solo:
  "step dec kid (Run 0) \<lparr>cache = j, world = w, writer = None, callers = [AtRefresh]\<rparr>
     = Some (if Since w (lastFetch j) < 30 * Second
             then \<lparr>cache = j, world = w, writer = None, callers = [AtLookup]\<rparr>
             else \<lparr>cache = j, world = w\<lparr>http_calls := http_calls w + 1\<rparr>, writer = Some 0,
                    callers = [Fetching (endpoint w (jwksURL j))]\<rparr>)"
  by (simp add: step_def setCaller_def httpClient_Get_def)

lemma step_Fetching_solo:
  "step dec kid (Run 0) \<lparr>cache = j, world = w, writer = wr, callers = [Fetching r]\<rparr>
     = Some (case storeResponse dec j w r of
               (Some err, j') \<Rightarrow> \<lparr>cache = j', world = w, writer = None,
                                   callers = [Returned (Inl (FailedToRefresh err))]\<rparr>
             | (None, j') \<Rightarrow> \<lparr>cache = j', world = w, writer = None, callers = [AtLookup]\<rparr>)"
  by (simp add: step_def setCaller_def split: prod.splits option.splits)

lemma step_AtLookup_solo:
  "step dec kid (Run 0) \<lparr>cache = j, world = w, writer = None, callers = [AtLookup]\<rparr>
     = Some \<lparr>cache = j, world = w, writer = None,
             callers = [Returned (case keys j kid of
                                    None \<Rightarrow> Inl (KeyNotFound kid) | Some key \<Rightarrow> Inr key)]\<rparr>"
  by (simp add: step_def setCaller_def split: option.splits)

lemma step_Returned_solo:
  "step dec kid (Run 0) \<lparr>cache = j, world = w, writer = wr, callers = [Returned r]\<rparr>
     = Some \<lparr>cache = j, world = w, writer = wr, callers = [Returned r]\<rparr>"
  by (simp add: step_def)

lemmas solo_steps = step_AtFastPath_solo step_AtRefresh_solo step_Fetching_solo
  step_AtLookup_solo step_Returned_solo

lemma solo_caller_is_GetKey:
  assumes "GetKey dec kid (j, w) = (r, j', w')"
  shows "run dec kid [Run 0, Run 0, Run 0, Run 0] (start j w 1)
     = Some \<lparr>cache = j', world = w', writer = None, callers = [Returned r]\<rparr>"
proof (cases "fastLookup j w kid")
  case (Some key)
  with assms have "r = Inr key" "j' = j" "w' = w"
    by (simp_all add: GetKey_as_steps)
  with Some show ?thesis
    by (simp add: start_def solo_steps)
next
  case None
  show ?thesis
  proof (cases "Since w (lastFetch j) < 30 * Second")
    case True
    with None assms have "r = (case keys j kid of
        None \<Rightarrow> Inl (KeyNotFound kid) | Some key \<Rightarrow> Inr key)" "j' = j" "w' = w"
      by (auto simp: GetKey_as_steps refresh_as_steps split: option.splits)
    with None True show ?thesis
      by (simp add: start_def solo_steps)
  next
    case False
    let ?w = "w\<lparr>http_calls := http_calls w + 1\<rparr>"
    obtain e j2 where st: "storeResponse dec j ?w (endpoint w (jwksURL j)) = (e, j2)"
      by (cases "storeResponse dec j ?w (endpoint w (jwksURL j))")
    show ?thesis
    proof (cases e)
      case N: None
      with None False st assms have "r = (case keys j2 kid of
          None \<Rightarrow> Inl (KeyNotFound kid) | Some key \<Rightarrow> Inr key)" "j' = j2" "w' = ?w"
        by (auto simp: GetKey_as_steps refresh_as_steps httpClient_Get_def split: option.splits)
      with None False st N show ?thesis
        by (simp add: start_def solo_steps)
    next
      case (Some err)
      with None False st assms have "r = Inl (FailedToRefresh err)" "j' = j2" "w' = ?w"
        by (auto simp: GetKey_as_steps refresh_as_steps httpClient_Get_def)
      with None False st Some show ?thesis
        by (simp add: start_def solo_steps)
    qed
  qed
qed

lemma step_length: "step dec kid ev s = Some s' \<Longrightarrow> length (callers s') = length (callers s)"
  by (auto simp: step_def setCaller_def httpClient_Get_def
      split: event.splits caller.splits if_splits option.splits prod.splits)

lemma step_Tick:
  "step dec kid (Tick d) s = Some s' \<Longrightarrow>
     0 \<le> d \<and> s' = s\<lparr>world := (world s)\<lparr>now := now (world s) + d\<rparr>\<rparr>"
  by (auto simp: step_def split: if_splits)

lemma isFetching_update:
  "k < length xs \<Longrightarrow> isFetching (xs[i := c] ! k) \<Longrightarrow>
     (k = i \<and> isFetching c) \<or> (k \<noteq> i \<and> isFetching (xs ! k))"
  by (cases "k = i") simp_all

lemma Inv_setCaller_other:
  "Inv s \<Longrightarrow> \<not> isFetching c \<Longrightarrow> Inv (setCaller i c s)"
  by (auto simp: Inv_def setCaller_def dest: isFetching_update)

lemma step_Inv:
  assumes "step dec kid ev s = Some s'" and "Inv s"
  shows "Inv s'"
proof (cases ev)
  case (Tick d)
  with assms step_Tick [of dec kid d s s'] show ?thesis by (auto simp: Inv_def)
next
  case (Run i)
  from assms(1) Run have len: "i < length (callers s)"
    by (auto simp: step_def split: if_splits)
  show ?thesis
  proof (cases "callers s ! i")
    case AtFastPath
    with assms Run len show ?thesis
      by (auto simp: step_def Inv_setCaller_other split: if_splits option.splits)
  next
    case AtRefresh
    from assms(1) Run len AtRefresh have w: "writer s = None"
      by (auto simp: step_def split: if_splits)
    show ?thesis
    proof (cases "Since (world s) (lastFetch (cache s)) < 30 * Second")
      case True
      with assms Run len AtRefresh w show ?thesis
        by (auto simp: step_def Inv_setCaller_other)
    next
      case False
      with assms(1) Run len AtRefresh w
      have s': "s' = setCaller i (Fetching (endpoint (world s) (jwksURL (cache s))))
                  (s\<lparr>world := (world s)\<lparr>http_calls := http_calls (world s) + 1\<rparr>,
                     writer := Some i\<rparr>)"
        by (auto simp: step_def httpClient_Get_def)
      from assms(2) w have "\<forall>k < length (callers s). \<not> isFetching (callers s ! k)"
        by (auto simp: Inv_def)
      with s' show ?thesis
        by (auto simp: Inv_def setCaller_def dest: isFetching_update)
    qed
  next
    case (Fetching r)
    with assms(2) len have w: "writer s = Some i"
      by (auto simp: Inv_def)
    with assms(2) have others: "\<forall>k < length (callers s). k \<noteq> i \<longrightarrow> \<not> isFetching (callers s ! k)"
      by (auto simp: Inv_def)
    from assms(1) Run len Fetching
    obtain c j' where s': "s' = setCaller i c (s\<lparr>cache := j', writer := None\<rparr>)"
      and c: "\<not> isFetching c"
      by (auto simp: step_def split: prod.splits option.splits)
    from others s' c show ?thesis
      by (auto simp: Inv_def setCaller_def dest: isFetching_update)
  next
    case AtLookup
    with assms Run len show ?thesis
      by (auto simp: step_def Inv_setCaller_other split: if_splits option.splits)
  next
    case (Returned r)
    with assms Run len show ?thesis
      by (auto simp: step_def)
  qed
qed

lemma run_Inv: "run dec kid evs s = Some s' \<Longrightarrow> Inv s \<Longrightarrow> Inv s'"
proof (induction evs arbitrary: s)
  case Nil
  then show ?case by simp
next
  case (Cons ev evs)
  then obtain s1 where "step dec kid ev s = Some s1" "run dec kid evs s1 = Some s'"
    by (auto split: option.splits)
  with Cons.IH [of s1] step_Inv [of dec kid ev s s1] Cons.prems(2) show ?case by blast
qed

lemma Inv_start: "Inv (start j w n)"
  by (simp add: Inv_def start_def)

lemma Inv_inflight:
  assumes "Inv s"
  shows "inflight s \<le> 1"
proof -
  have "inflight s = card {i. i < length (callers s) \<and> isFetching (callers s ! i)}"
    by (simp add: inflight_def length_filter_conv_card)
  also have "\<dots> \<le> card (case writer s of None \<Rightarrow> {} | Some k \<Rightarrow> {k})"
  proof (rule card_mono)
    show "finite (case writer s of None \<Rightarrow> {} | Some k \<Rightarrow> {k})"
      by (simp split: option.splits)
    show "{i. i < length (callers s) \<and> isFetching (callers s ! i)}
        \<subseteq> (case writer s of None \<Rightarrow> {} | Some k \<Rightarrow> {k})"
      using assms by (auto simp: Inv_def split: option.splits)
  qed
  also have "\<dots> \<le> 1"
    by (simp split: option.splits)
  finally show ?thesis .
qed

lemma Since_window: "now w - t < 30 * Second \<Longrightarrow> Since w t < 30 * Second"
  by (simp add: Since_def Sub_time_def Let_def maxDuration_def minDuration_def Second_def)

lemma storeResponse_ok:
  "\<not> failedFetch r \<Longrightarrow> \<exists>ks. storeResponse dec j w r = (None, j\<lparr>keys := ks, lastFetch := now w\<rparr>)"
  by (auto simp: failedFetch_def storeResponse_def split: GetResult.splits option.splits)

lemma Fetching_update:
  "k < length xs \<Longrightarrow> xs[i := c] ! k = Fetching r \<Longrightarrow>
     (k = i \<and> c = Fetching r) \<or> (k \<noteq> i \<and> xs ! k = Fetching r)"
  by (cases "k = i") simp_all

lemma pending_update:
  assumes "\<forall>k < length xs. \<forall>r. xs ! k = Fetching r \<longrightarrow> \<not> failedFetch r"
    and "\<forall>r. c = Fetching r \<longrightarrow> \<not> failedFetch r"
  shows "\<forall>k < length (xs[i := c]). \<forall>r. xs[i := c] ! k = Fetching r \<longrightarrow> \<not> failedFetch r"
proof (intro allI impI)
  fix k r
  assume k: "k < length (xs[i := c])" and f: "xs[i := c] ! k = Fetching r"
  show "\<not> failedFetch r"
  proof (cases "k = i")
    case True
    with k f assms(2) show ?thesis by simp
  next
    case False
    with k f assms(1) show ?thesis by simp
  qed
qed

lemma notFetching_update:
  assumes "\<forall>k < length xs. k \<noteq> i \<longrightarrow> \<not> isFetching (xs ! k)" and "\<not> isFetching c"
  shows "\<forall>k < length (xs[i := c]). \<not> isFetching (xs[i := c] ! k)"
proof (intro allI impI)
  fix k
  assume "k < length (xs[i := c])"
  with assms show "\<not> isFetching (xs[i := c] ! k)"
    by (cases "k = i") simp_all
qed

lemma Coalesced_setCaller_other:
  assumes "Coalesced t0 c0 s" and "\<not> isFetching c"
  shows "Coalesced t0 c0 (setCaller i c s)"
proof -
  from assms(1) have "Inv s" by (simp add: Coalesced_def)
  then have "Inv (setCaller i c s)" using assms(2) by (rule Inv_setCaller_other)
  moreover have "\<forall>k < length ((callers s)[i := c]). \<forall>r. (callers s)[i := c] ! k = Fetching r
      \<longrightarrow> \<not> failedFetch r"
  proof (rule pending_update)
    show "\<forall>k < length (callers s). \<forall>r. callers s ! k = Fetching r \<longrightarrow> \<not> failedFetch r"
      using assms(1) by (simp add: Coalesced_def)
    show "\<forall>r. c = Fetching r \<longrightarrow> \<not> failedFetch r"
      using assms(2) by auto
  qed
  ultimately show ?thesis
    using assms(1) by (simp add: Coalesced_def setCaller_def)
qed

lemma step_Coalesced:
  assumes "step dec kid ev s = Some s'" and "Coalesced t0 c0 s"
    and "now (world s) - t0 < 30 * Second"
  shows "Coalesced t0 c0 s'"
proof (cases ev)
  case (Tick d)
  with assms(1) step_Tick [of dec kid d s s']
  have "0 \<le> d" "s' = s\<lparr>world := (world s)\<lparr>now := now (world s) + d\<rparr>\<rparr>" by auto
  with assms(2) show ?thesis by (auto simp: Coalesced_def Inv_def)
next
  case (Run i)
  from assms(1) Run have len: "i < length (callers s)"
    by (auto simp: step_def split: if_splits)
  show ?thesis
  proof (cases "callers s ! i")
    case AtFastPath
    with assms Run len show ?thesis
      by (auto simp: step_def Coalesced_setCaller_other split: if_splits option.splits)
  next
    case AtRefresh
    from assms(1) Run len AtRefresh have w: "writer s = None"
      by (auto simp: step_def split: if_splits)
    show ?thesis
    proof (cases "Since (world s) (lastFetch (cache s)) < 30 * Second")
      case True
      with assms Run len AtRefresh w show ?thesis
        by (auto simp: step_def Coalesced_setCaller_other)
    next
      case False
      let ?r = "endpoint (world s) (jwksURL (cache s))"
      from False assms(1) Run len AtRefresh w
      have s': "s' = setCaller i (Fetching ?r)
                  (s\<lparr>world := (world s)\<lparr>http_calls := http_calls (world s) + 1\<rparr>,
                     writer := Some i\<rparr>)"
        by (auto simp: step_def httpClient_Get_def)
      have "\<not> (t0 \<le> lastFetch (cache s))"
      proof
        assume "t0 \<le> lastFetch (cache s)"
        with assms(3) have "now (world s) - lastFetch (cache s) < 30 * Second" by simp
        with False Since_window show False by blast
      qed
      with assms(2) w have calls: "http_calls (world s) = c0"
        by (auto simp: Coalesced_def)
      from assms(2) w have none: "\<forall>k < length (callers s). \<not> isFetching (callers s ! k)"
        by (auto simp: Coalesced_def Inv_def)
      from assms(2) have ok: "\<not> failedFetch ?r" by (simp add: Coalesced_def)
      have inv: "Inv s'"
        using none s' by (auto simp: Inv_def setCaller_def dest: isFetching_update)
      have pend: "\<forall>k < length (callers s'). \<forall>r. callers s' ! k = Fetching r \<longrightarrow> \<not> failedFetch r"
      proof -
        have p0: "\<forall>k < length (callers s). \<forall>r. callers s ! k = Fetching r \<longrightarrow> \<not> failedFetch r"
          using assms(2) by (simp add: Coalesced_def)
        from pending_update [OF p0, of "Fetching ?r" i] ok show ?thesis
          unfolding s' setCaller_def by simp
      qed
      from inv pend calls assms(2) s' show ?thesis
        by (simp add: Coalesced_def setCaller_def)
    qed
  next
    case (Fetching r)
    with assms(2) len have w: "writer s = Some i"
      by (auto simp: Coalesced_def Inv_def)
    with assms(2) have calls: "http_calls (world s) = c0 + 1"
      by (auto simp: Coalesced_def)
    from assms(2) w have others: "\<forall>k < length (callers s). k \<noteq> i \<longrightarrow> \<not> isFetching (callers s ! k)"
      by (auto simp: Coalesced_def Inv_def)
    from assms(2) len Fetching have "\<not> failedFetch r" by (auto simp: Coalesced_def)
    from storeResponse_ok [OF this, of dec "cache s" "world s"]
    obtain ks where st: "storeResponse dec (cache s) (world s) r
        = (None, (cache s)\<lparr>keys := ks, lastFetch := now (world s)\<rparr>)" by blast
    with assms(1) Run len Fetching
    have s': "s' = setCaller i AtLookup
        (s\<lparr>cache := (cache s)\<lparr>keys := ks, lastFetch := now (world s)\<rparr>, writer := None\<rparr>)"
      by (simp add: step_def)
    have inv: "Inv s'"
      using notFetching_update [OF others, of AtLookup] unfolding s' setCaller_def Inv_def
      by simp
    have pend: "\<forall>k < length (callers s'). \<forall>r. callers s' ! k = Fetching r \<longrightarrow> \<not> failedFetch r"
    proof -
      have p0: "\<forall>k < length (callers s). \<forall>r. callers s ! k = Fetching r \<longrightarrow> \<not> failedFetch r"
        using assms(2) by (simp add: Coalesced_def)
      from pending_update [OF p0, of AtLookup i] show ?thesis
        unfolding s' setCaller_def by simp
    qed
    from inv pend calls assms(2) s' show ?thesis
      by (simp add: Coalesced_def setCaller_def)
  next
    case AtLookup
    with assms Run len show ?thesis
      by (auto simp: step_def Coalesced_setCaller_other split: if_splits option.splits)
  next
    case (Returned r)
    with assms Run len show ?thesis
      by (auto simp: step_def)
  qed
qed

lemma step_now: "step dec kid ev s = Some s' \<Longrightarrow> now (world s) \<le> now (world s')"
  by (auto simp: step_def setCaller_def httpClient_Get_def
      split: event.splits caller.splits if_splits option.splits prod.splits)

lemma run_now: "run dec kid evs s = Some s' \<Longrightarrow> now (world s) \<le> now (world s')"
proof (induction evs arbitrary: s)
  case Nil
  then show ?case by simp
next
  case (Cons ev evs)
  then obtain s1 where 1: "step dec kid ev s = Some s1" and 2: "run dec kid evs s1 = Some s'"
    by (auto split: option.splits)
  from step_now [OF 1] Cons.IH [OF 2] show ?case by simp
qed

lemma run_Coalesced:
  "run dec kid evs s = Some s' \<Longrightarrow> Coalesced t0 c0 s \<Longrightarrow>
     now (world s') - t0 < 30 * Second \<Longrightarrow> Coalesced t0 c0 s'"
proof (induction evs arbitrary: s)
  case Nil
  then show ?case by simp
next
  case (Cons ev evs)
  then obtain s1 where 1: "step dec kid ev s = Some s1" and 2: "run dec kid evs s1 = Some s'"
    by (auto split: option.splits)
  from step_now [OF 1] run_now [OF 2] Cons.prems(3)
  have "now (world s) - t0 < 30 * Second" by simp
  from step_Coalesced [OF 1 Cons.prems(2) this] have "Coalesced t0 c0 s1" .
  from Cons.IH [OF 2 this Cons.prems(3)] show ?case .
qed

lemma Coalesced_start:
  "\<forall>url. \<not> failedFetch (endpoint w url) \<Longrightarrow> Coalesced (now w) (http_calls w) (start j w n)"
  by (simp add: Coalesced_def Inv_start) (simp add: start_def)

lemma fastLookup_new: "fastLookup (NewJWKSCache u) w kid = None"
  by (simp add: fastLookup_def NewJWKSCache_def)

lemma run_down:
  "run dec0 ''k1'' sched_down (start (NewJWKSCache keysURL) world_down 2)
     = Some \<lparr>cache = NewJWKSCache keysURL,
             world = \<lparr>now = 60 * Second, endpoint = (\<lambda>url. GetError), http_calls = 2\<rparr>,
             writer = None,
             callers = [Returned (Inl (FailedToRefresh JWKSFetchFailed)),
                        Returned (Inl (FailedToRefresh JWKSFetchFailed))]\<rparr>"
  by (simp add: sched_down_def start_def step_def setCaller_def fastLookup_def NewJWKSCache_def
      world_down_def httpClient_Get_def storeResponse_def Since_def Sub_time_def zeroTime_def
      Second_def maxDuration_def minDuration_def numeral_2_eq_2)

lemma run_up:
  "run dec0 ''k1'' sched_up (start (NewJWKSCache keysURL) world_up 2) = Some final_up"
  by (simp add: sched_up_def final_up_def start_def step_def setCaller_def fastLookup_def
      NewJWKSCache_def world_up_def httpClient_Get_def storeResponse_def Since_def Sub_time_def
      zeroTime_def Second_def Hour_def maxDuration_def minDuration_def numeral_2_eq_2 StatusOK_def
      collect0 del: collectKeys.simps)

text \<open>
  C6, as the code has it. In every state that callers of \<open>GetKey\<close> on one cache can
  reach, at most one GET is in flight. When the endpoint answers well and the race lasts
  less than 30 seconds from its start, the callers send at most one GET between them,
  however many they are and however they interleave.
\<close>

theorem concurrent_callers_fetches:
  "(run dec kid evs (start j w n) = Some s \<longrightarrow> inflight s \<le> 1)
   \<and> (run dec kid evs (start j w n) = Some s
        \<and> (\<forall>url. \<not> failedFetch (endpoint w url))
        \<and> now (world s) - now w < 30 * Second
        \<longrightarrow> http_calls (world s) \<le> http_calls w + 1)"
proof -
  have 1: "run dec kid evs (start j w n) = Some s \<longrightarrow> inflight s \<le> 1"
    using run_Inv [of dec kid evs "start j w n" s] Inv_start [of j w n] Inv_inflight [of s]
    by blast
  have 2: "run dec kid evs (start j w n) = Some s
        \<and> (\<forall>url. \<not> failedFetch (endpoint w url))
        \<and> now (world s) - now w < 30 * Second
        \<longrightarrow> http_calls (world s) \<le> http_calls w + 1"
  proof (intro impI, elim conjE)
    assume r: "run dec kid evs (start j w n) = Some s"
      and e: "\<forall>url. \<not> failedFetch (endpoint w url)"
      and t: "now (world s) - now w < 30 * Second"
    from run_Coalesced [OF r Coalesced_start [OF e] t]
    show "http_calls (world s) \<le> http_calls w + 1"
      by (auto simp: Coalesced_def)
  qed
  from 1 2 show ?thesis by blast
qed

theorem concurrent_callers_fetches_witness:
  "run dec0 ''k1'' sched_up (start (NewJWKSCache keysURL) world_up 2) = Some final_up
   \<and> (\<forall>url. \<not> failedFetch (endpoint world_up url))
   \<and> now (world final_up) - now world_up < 30 * Second
   \<and> inflight final_up \<le> 1
   \<and> http_calls (world final_up) \<le> http_calls world_up + 1
   \<and> callers final_up = [Returned (Inr key1), Returned (Inr key1)]"
proof -
  have e: "\<forall>url. \<not> failedFetch (endpoint world_up url)"
    by (simp add: failedFetch_def world_up_def StatusOK_def)
  have t: "now (world final_up) - now world_up < 30 * Second"
    by (simp add: final_up_def world_up_def Second_def)
  have a: "inflight final_up \<le> 1"
    using concurrent_callers_fetches [of dec0 "''k1''" sched_up "NewJWKSCache keysURL" world_up 2
        final_up] run_up
    by blast
  have b: "http_calls (world final_up) \<le> http_calls world_up + 1"
    using concurrent_callers_fetches [of dec0 "''k1''" sched_up "NewJWKSCache keysURL" world_up 2
        final_up] run_up e t
    by blast
  have c: "callers final_up = [Returned (Inr key1), Returned (Inr key1)]"
    by (simp add: final_up_def)
  from run_up e t a b c show ?thesis by blast
qed

text \<open>
  C6 as stated fails when the fetch fails: \<open>refresh\<close> sets the time of the last fetch
  only after a good answer, so the second of two callers racing on a new cache, entering
  \<open>refresh\<close> at the same instant as the first left it, sends a GET of its own.
\<close>

theorem failed_fetch_is_repeated:
  "fastLookup (NewJWKSCache keysURL) world_down ''k1'' = None
   \<and> http_calls world_down = 0
   \<and> map_option (\<lambda>s. (http_calls (world s), now (world s) - now world_down, callers s))
        (run dec0 ''k1'' sched_down (start (NewJWKSCache keysURL) world_down 2))
     = Some (2, 0, [Returned (Inl (FailedToRefresh JWKSFetchFailed)),
                    Returned (Inl (FailedToRefresh JWKSFetchFailed))])"
  by (simp add: fastLookup_new run_down) (simp add: world_down_def)

end
